theory Spec2Isabelle
  imports Complex_Main "HOL-Library.Product_Lexorder"
begin

section \<open>Errors\<close>

text \<open>
  The generators raise plain Python exceptions. \<open>Exception\<close> carries the message of a
  \<^verbatim>\<open>raise Exception(...)\<close> of the source; the other constructors are the built-in
  exceptions that NumPy and Python raise on their own (an index out of range, shapes that
  do not broadcast, the conversion of an infinite or undefined float to an integer).
\<close>

datatype error =
    Exception string
  | IndexError
  | ValueError
  | OverflowError
  | ZeroDivisionError
  | TypingError

section \<open>N-dimensional arrays\<close>

text \<open>
  A NumPy array is its shape and its elements: \<open>item a idx\<close> is the element at the
  multi-index \<open>idx\<close>, meaningful where \<open>idx\<close> is within the bounds of \<open>shape a\<close>. Indices
  are integers because the generators compute them with subtraction before clipping.
\<close>

record 'a ndarray =
  shape :: "nat list"
  item :: "int list \<Rightarrow> 'a"

definition in_bounds :: "nat list \<Rightarrow> int list \<Rightarrow> bool" where
  "in_bounds shp idx = list_all2 (\<lambda>n i. 0 \<le> i \<and> i < int n) shp idx"

text \<open>All multi-indices of a shape in C (row-major) order, the order of \<open>ravel\<close>.\<close>

fun all_indices :: "nat list \<Rightarrow> int list list" where
  "all_indices [] = [[]]"
| "all_indices (n # ns) = concat (map (\<lambda>i. map ((#) (int i)) (all_indices ns)) [0..<n])"

text \<open>\<open>a.size\<close>, \<open>a.sum()\<close> of a boolean array, and \<open>np.flatnonzero(a)\<close>.\<close>

definition size_of :: "'a ndarray \<Rightarrow> nat" where
  "size_of a = prod_list (shape a)"

definition sum_of :: "bool ndarray \<Rightarrow> nat" where
  "sum_of a = length (filter (item a) (all_indices (shape a)))"

definition flatnonzero :: "bool ndarray \<Rightarrow> int list" where
  "flatnonzero a =
     map (\<lambda>p. int (fst p)) (filter (\<lambda>p. item a (snd p)) (enumerate 0 (all_indices (shape a))))"

subsection \<open>Basic slicing\<close>

text \<open>
  \<open>slice(a, b)\<close> on an axis of length \<open>n\<close>, as \<open>slice.indices\<close> computes it for step 1:
  a negative bound counts from the end, and both bounds are then clipped to \<open>0..n\<close>. The
  slice selects \<open>start, ..., stop - 1\<close> and is empty when \<open>stop \<le> start\<close>.
\<close>

definition clip_bound :: "nat \<Rightarrow> int \<Rightarrow> int" where
  "clip_bound n x = (if x < 0 then max (x + int n) 0 else min x (int n))"

definition slice_start :: "nat \<Rightarrow> int \<times> int \<Rightarrow> int" where
  "slice_start n s = clip_bound n (fst s)"

definition slice_len :: "nat \<Rightarrow> int \<times> int \<Rightarrow> nat" where
  "slice_len n s = nat (clip_bound n (snd s) - clip_bound n (fst s))"

definition view_shape :: "nat list \<Rightarrow> (int \<times> int) list \<Rightarrow> nat list" where
  "view_shape shp slices = map2 slice_len shp slices"

definition view_starts :: "nat list \<Rightarrow> (int \<times> int) list \<Rightarrow> int list" where
  "view_starts shp slices = map2 slice_start shp slices"

text \<open>\<open>a[tuple(slices)]\<close>, one slice per axis: the view and its elements.\<close>

definition subarray :: "'a ndarray \<Rightarrow> (int \<times> int) list \<Rightarrow> 'a ndarray" where
  "subarray a slices =
     \<lparr>shape = view_shape (shape a) slices,
      item = (\<lambda>j. item a (map2 (+) (view_starts (shape a) slices) j))\<rparr>"

text \<open>
  Writing through the view: the element of \<open>a\<close> at \<open>idx\<close> belongs to the view when
  \<open>idx - starts\<close> is within the view's shape; \<open>f\<close> gives the new element from the view
  index and the old element.
\<close>

definition update_view :: "'a ndarray \<Rightarrow> (int \<times> int) list \<Rightarrow> (int list \<Rightarrow> 'a \<Rightarrow> 'a) \<Rightarrow> 'a ndarray" where
  "update_view a slices f =
     a\<lparr>item := (\<lambda>idx.
        let j = map2 (-) idx (view_starts (shape a) slices)
        in if length idx = length (shape a) \<and> length slices = length (shape a)
              \<and> in_bounds (view_shape (shape a) slices) j
           then f j (item a idx) else item a idx)\<rparr>"

subsection \<open>Broadcasting\<close>

text \<open>
  NumPy broadcasts an operand of the same number of axes to a target shape when every
  axis has the target's length or length 1; an axis of length 1 is repeated.
\<close>

definition broadcastable :: "nat list \<Rightarrow> nat list \<Rightarrow> bool" where
  "broadcastable src tgt = list_all2 (\<lambda>s t. s = t \<or> s = 1) src tgt"

definition broadcast_index :: "nat list \<Rightarrow> int list \<Rightarrow> int list" where
  "broadcast_index src j = map2 (\<lambda>s i. if s = 1 then 0 else i) src j"

text \<open>The shape of \<open>x + y\<close> for operands with the same number of axes, if they broadcast.\<close>

definition broadcast_shapes :: "nat list \<Rightarrow> nat list \<Rightarrow> nat list option" where
  "broadcast_shapes xs ys =
     (if list_all2 (\<lambda>x y. x = y \<or> x = 1 \<or> y = 1) xs ys
      then Some (map2 (\<lambda>x y. if x = 1 then y else x) xs ys) else None)"

section \<open>Random sequential addition: \<open>_make_choice\<close> and \<open>RSA\<close>\<close>

subsection \<open>The randomized site search\<close>

text \<open>
  \<open>np.random.randint(0, upper_limit)\<close> is read from a stream of raw draws: \<open>rnd k\<close> is the
  \<open>k\<close>-th draw of the run and \<open>rnd k mod upper_limit\<close> the index it selects, so that every
  index below \<open>upper_limit\<close> is a possible outcome of every draw. The loops return the
  coordinates, the number of attempts, and the position reached in the stream.

  The compiled function follows Python for \<open>%\<close> and \<open>//\<close> on integers: the floor
  division of Isabelle's \<open>div\<close> and \<open>mod\<close>, and ZeroDivisionError for a zero divisor.
\<close>

function make_choice_2d ::
  "bool ndarray \<Rightarrow> int list \<Rightarrow> (nat \<Rightarrow> nat) \<Rightarrow> nat \<Rightarrow> nat \<Rightarrow> nat \<Rightarrow> nat \<Rightarrow> nat
     \<Rightarrow> error + (int list \<times> nat \<times> nat)" where
  "make_choice_2d options_im free_sites rnd Nx Ny max_iters count k =
     (if count \<ge> max_iters then Inr ([-1, -1], count, k)
      else
        let ind = rnd k mod length free_sites in
        if Ny = 0 \<or> Nx = 0 then Inl ZeroDivisionError
        else
          let c1 = (free_sites ! ind) mod int Ny;
              c0 = ((free_sites ! ind) div int Ny) mod int Nx
          in if item options_im [c0, c1] then Inr ([c0, c1], count + 1, k + 1)
             else make_choice_2d options_im free_sites rnd Nx Ny max_iters (count + 1) (k + 1))"
  by pat_completeness auto
termination
  by (relation "measure (\<lambda>(options_im, free_sites, rnd, Nx, Ny, max_iters, count, k). max_iters - count)") auto

declare make_choice_2d.simps [simp del]

function make_choice_3d ::
  "bool ndarray \<Rightarrow> int list \<Rightarrow> (nat \<Rightarrow> nat) \<Rightarrow> nat \<Rightarrow> nat \<Rightarrow> nat \<Rightarrow> nat \<Rightarrow> nat \<Rightarrow> nat
     \<Rightarrow> error + (int list \<times> nat \<times> nat)" where
  "make_choice_3d options_im free_sites rnd Nx Ny Nz max_iters count k =
     (if count \<ge> max_iters then Inr ([-1, -1, -1], count, k)
      else
        let ind = rnd k mod length free_sites in
        if Nz = 0 \<or> Ny = 0 \<or> Nx = 0 then Inl ZeroDivisionError
        else
          let c2 = (free_sites ! ind) mod int Nz;
              c1 = ((free_sites ! ind) div int Nz) mod int Ny;
              c0 = ((free_sites ! ind) div (int Nz * int Ny)) mod int Nx
          in if item options_im [c0, c1, c2] then Inr ([c0, c1, c2], count + 1, k + 1)
             else make_choice_3d options_im free_sites rnd Nx Ny Nz max_iters (count + 1) (k + 1))"
  by pat_completeness auto
termination
  by (relation "measure (\<lambda>(options_im, free_sites, rnd, Nx, Ny, Nz, max_iters, count, k). max_iters - count)") auto

declare make_choice_3d.simps [simp del]

text \<open>
  \<open>_make_choice(options_im, free_sites)\<close>, with the stream and the position in it. For an
  array that is neither 2-D nor 3-D no branch defines \<open>coords\<close> and the compiler rejects
  the call.
\<close>

definition make_choice ::
  "bool ndarray \<Rightarrow> int list \<Rightarrow> (nat \<Rightarrow> nat) \<Rightarrow> nat \<Rightarrow> error + (int list \<times> nat \<times> nat)" where
  "make_choice options_im free_sites rnd k =
     (let upper_limit = length free_sites; max_iters = upper_limit * 20
      in case shape options_im of
           [Nx, Ny] \<Rightarrow> make_choice_2d options_im free_sites rnd Nx Ny max_iters 0 k
         | [Nx, Ny, Nz] \<Rightarrow> make_choice_3d options_im free_sites rnd Nx Ny Nz max_iters 0 k
         | _ \<Rightarrow> Inl TypingError)"

subsection \<open>Templates, padding and the border\<close>

text \<open>
  Modelled from the spec: \<open>ps_disk\<close> and \<open>ps_ball\<close> (\<open>porespy.tools\<close>) are not among the
  sources. The spec describes the sphere or disk primitive of radius \<open>r\<close> as a binary
  template of shape \<open>(2r+1)^d\<close>, and makes a voxel a valid centre as soon as its distance
  to the solid is \<open>\<ge> r\<close>, which "guarantees the new sphere, of radius \<open>r\<close>, does not
  overlap existing solid": a voxel at distance exactly \<open>r\<close> from the centre is therefore
  outside the sphere. The template is the set of offsets at distance less than \<open>r\<close> from
  its middle, the convention of every \<open>edt(...) < radius\<close> in the source file.
\<close>

definition ps_round :: "nat \<Rightarrow> nat \<Rightarrow> bool ndarray" where
  "ps_round ndim r =
     \<lparr>shape = replicate ndim (2 * r + 1),
      item = (\<lambda>j. (\<Sum>x\<leftarrow>j. (x - int r)\<^sup>2) < (int r)\<^sup>2)\<rparr>"

definition ps_disk :: "nat \<Rightarrow> bool ndarray" where
  "ps_disk r = ps_round 2 r"

definition ps_ball :: "nat \<Rightarrow> bool ndarray" where
  "ps_ball r = ps_round 3 r"

text \<open>
  Modelled from the spec: \<open>get_border\<close> (\<open>porespy.tools\<close>) is not among the sources. The
  spec has a border band of the given width along every face marked as forbidden.
\<close>

definition get_border :: "nat list \<Rightarrow> nat \<Rightarrow> bool ndarray" where
  "get_border shp thickness =
     \<lparr>shape = shp,
      item = (\<lambda>idx. list_ex (\<lambda>p. snd p < int thickness \<or> snd p \<ge> int (fst p) - int thickness)
                       (zip shp idx))\<rparr>"

text \<open>
  \<open>np.pad(im, pad_width=w, mode="edge")\<close>: every axis grows by \<open>w\<close> on both sides and the
  new voxels repeat the nearest voxel of the image. NumPy refuses to extend an empty axis
  in this mode.
\<close>

definition np_pad_edge :: "'a ndarray \<Rightarrow> nat \<Rightarrow> error + 'a ndarray" where
  "np_pad_edge a w =
     (if w > 0 \<and> 0 \<in> set (shape a) then Inl ValueError
      else Inr \<lparr>shape = map (\<lambda>n. n + 2 * w) (shape a),
                item = (\<lambda>idx. item a (map2 (\<lambda>n i. max 0 (min (int n - 1) (i - int w))) (shape a) idx))\<rparr>)"

subsection \<open>The two writes of an insertion\<close>

text \<open>
  \<open>im[s_sm] += template_sm\<close> on boolean arrays is an in-place logical or; the template
  must broadcast to the shape of the view, or NumPy raises ValueError.
\<close>

definition iadd_bool :: "bool ndarray \<Rightarrow> (int \<times> int) list \<Rightarrow> bool ndarray \<Rightarrow> error + bool ndarray" where
  "iadd_bool a slices t =
     (if broadcastable (shape t) (view_shape (shape a) slices)
      then Inr (update_view a slices (\<lambda>j old. old \<or> item t (broadcast_index (shape t) j)))
      else Inl ValueError)"

text \<open>
  \<open>options_im[s_lg][template_lg] = False\<close>: the boolean mask must have the shape of the
  view exactly, or NumPy raises IndexError.
\<close>

definition clear_mask :: "bool ndarray \<Rightarrow> (int \<times> int) list \<Rightarrow> bool ndarray \<Rightarrow> error + bool ndarray" where
  "clear_mask a slices m =
     (if shape m = view_shape (shape a) slices
      then Inr (update_view a slices (\<lambda>j old. if item m j then False else old))
      else Inl IndexError)"

subsection \<open>The insertion loop\<close>

text \<open>
  The variables of the loop. \<open>rs_draws\<close> is the position in the random stream and
  \<open>rs_centers\<close> records the centres inserted so far, in order; the source keeps neither.
\<close>

record rsa_state =
  rs_im :: "bool ndarray"
  rs_options_im :: "bool ndarray"
  rs_free_sites :: "int list"
  rs_vf :: real
  rs_i :: int
  rs_draws :: nat
  rs_centers :: "int list list"

datatype 'a loop = Break 'a | Continue 'a

definition RSA_body ::
  "(nat \<Rightarrow> nat) \<Rightarrow> nat \<Rightarrow> real \<Rightarrow> bool ndarray \<Rightarrow> bool ndarray \<Rightarrow> rsa_state
     \<Rightarrow> error + rsa_state loop" where
  "RSA_body rnd radius vf_template template_sm template_lg s =
     (case make_choice (rs_options_im s) (rs_free_sites s) rnd (rs_draws s) of
        Inl e \<Rightarrow> Inl e
      | Inr (c, count, k) \<Rightarrow>
          let s1 = s\<lparr>rs_draws := k,
                     rs_free_sites := (if count > 100 then flatnonzero (rs_options_im s)
                                      else rs_free_sites s)\<rparr>
          in if list_all (\<lambda>x. x = -1) c then Inr (Break s1)
             else
               let s_sm = map (\<lambda>x. (x - int radius, x + int radius + 1)) c;
                   s_lg = map (\<lambda>x. (x - 2 * int radius, x + 2 * int radius + 1)) c
               in case iadd_bool (rs_im s1) s_sm template_sm of
                    Inl e \<Rightarrow> Inl e
                  | Inr im' \<Rightarrow>
                      (case clear_mask (rs_options_im s1) s_lg template_lg of
                         Inl e \<Rightarrow> Inl e
                       | Inr options' \<Rightarrow>
                           Inr (Continue (s1\<lparr>rs_im := im', rs_options_im := options',
                                             rs_vf := rs_vf s1 + vf_template,
                                             rs_i := rs_i s1 + 1,
                                             rs_centers := rs_centers s1 @ [c]\<rparr>))))"

lemma RSA_body_Continue_i:
  "RSA_body rnd radius vf_template template_sm template_lg s = Inr (Continue s') \<Longrightarrow> rs_i s' = rs_i s + 1"
  by (auto simp: RSA_body_def Let_def split: sum.splits prod.splits if_splits)

function RSA_loop ::
  "(nat \<Rightarrow> nat) \<Rightarrow> nat \<Rightarrow> real \<Rightarrow> int \<Rightarrow> real \<Rightarrow> bool ndarray \<Rightarrow> bool ndarray \<Rightarrow> rsa_state
     \<Rightarrow> error + rsa_state" where
  "RSA_loop rnd radius vf_final n_max vf_template template_sm template_lg s =
     (if rs_vf s \<le> vf_final \<and> rs_i s < n_max \<and> length (rs_free_sites s) > 0
      then case RSA_body rnd radius vf_template template_sm template_lg s of
             Inl e \<Rightarrow> Inl e
           | Inr (Break s') \<Rightarrow> Inr s'
           | Inr (Continue s') \<Rightarrow>
               RSA_loop rnd radius vf_final n_max vf_template template_sm template_lg s'
      else Inr s)"
  by pat_completeness auto
termination
  by (relation "measure (\<lambda>(rnd, radius, vf_final, n_max, vf_template, template_sm, template_lg, s).
                   nat (n_max - rs_i s))")
     (auto dest: RSA_body_Continue_i)

declare RSA_loop.simps [simp del]

subsection \<open>\<open>RSA\<close>\<close>

text \<open>
  \<open>edt\<close>, the Euclidean distance transform of the \<open>edt\<close> package, is a parameter: \<open>edt a\<close>
  gives every voxel where \<open>a\<close> is true its distance to the nearest voxel where \<open>a\<close> is
  false. \<open>RSA_start\<close> is the state in which the loop begins: the border is made solid,
  the options mask is the distance field thresholded at the radius, and the free sites are
  its true voxels. The result of \<open>RSA\<close> pairs the returned image with the centres that were
  inserted. The radius is a natural number (\<open>np.pad\<close> rejects a negative width).
\<close>

definition RSA_start ::
  "(bool ndarray \<Rightarrow> int list \<Rightarrow> real) \<Rightarrow> bool ndarray \<Rightarrow> bool ndarray \<Rightarrow> nat \<Rightarrow> real \<Rightarrow> rsa_state" where
  "RSA_start edt padded border radius vf_start =
     (let im1 = padded\<lparr>item := (\<lambda>idx. item border idx \<or> item padded idx)\<rparr>;
          dt = edt (im1\<lparr>item := (\<lambda>idx. \<not> item im1 idx)\<rparr>);
          options_im = \<lparr>shape = shape im1, item = (\<lambda>idx. dt idx \<ge> real radius)\<rparr>
      in \<lparr>rs_im = im1, rs_options_im = options_im,
          rs_free_sites = flatnonzero options_im,
          rs_vf = vf_start, rs_i = 0, rs_draws = 0, rs_centers = []\<rparr>)"

definition RSA ::
  "(bool ndarray \<Rightarrow> int list \<Rightarrow> real) \<Rightarrow> (nat \<Rightarrow> nat) \<Rightarrow> bool ndarray \<Rightarrow> nat \<Rightarrow> real
     \<Rightarrow> int option \<Rightarrow> string \<Rightarrow> error + (bool ndarray \<times> int list list)" where
  "RSA edt rnd im radius volume_fraction n_max mode =
     (let n_max = (case n_max of None \<Rightarrow> 10000 | Some n \<Rightarrow> n);
          vf_final = volume_fraction;
          vf_start = real (sum_of im) / real (size_of im);
          template_lg = (if length (shape im) = 2 then ps_disk (radius * 2) else ps_ball (radius * 2));
          template_sm = (if length (shape im) = 2 then ps_disk radius else ps_ball radius);
          vf_template = real (sum_of template_sm) / real (size_of im)
      in case np_pad_edge im (2 * radius) of
           Inl e \<Rightarrow> Inl e
         | Inr padded \<Rightarrow>
            (case (if mode = ''contained'' then Inr (get_border (shape padded) (2 * radius))
                   else if mode = ''extended'' then Inr (get_border (shape padded) (radius + 1))
                   else Inl (Exception ''Unrecognized mode: '')) of
               Inl e \<Rightarrow> Inl e
             | Inr border \<Rightarrow>
                (case RSA_loop rnd radius vf_final n_max vf_template template_sm template_lg
                        (RSA_start edt padded border radius vf_start) of
                   Inl e \<Rightarrow> Inl e
                 | Inr s \<Rightarrow>
                     Inr (subarray (rs_im s)
                            (map (\<lambda>d. (2 * int radius, int d - 2 * int radius)) (shape (rs_im s))),
                          rs_centers s))))"

text \<open>
  The voxels that the insertion at centre \<open>c\<close> turns solid: the true entries of the small
  template, moved so that its middle lies on \<open>c\<close>.
\<close>

definition footprint :: "bool ndarray \<Rightarrow> nat \<Rightarrow> int list \<Rightarrow> int list set" where
  "footprint template radius c =
     {v. length v = length c
         \<and> in_bounds (shape template) (map2 (\<lambda>x y. x - y + int radius) v c)
         \<and> item template (map2 (\<lambda>x y. x - y + int radius) v c)}"

definition sq_dist :: "int list \<Rightarrow> int list \<Rightarrow> int" where
  "sq_dist u v = (\<Sum>p\<leftarrow>zip u v. (fst p - snd p)\<^sup>2)"

text \<open>
  The invariant of the insertion loop: every centre inserted so far lies within the options
  mask, the mask is false on the whole exclusion template around it, and no centre lies in
  the exclusion template of an earlier one.
\<close>

definition rsa_inv :: "bool ndarray \<Rightarrow> nat \<Rightarrow> rsa_state \<Rightarrow> bool" where
  "rsa_inv template_lg radius s =
     ((\<forall>c\<in>set (rs_centers s). in_bounds (shape (rs_options_im s)) c
          \<and> (\<forall>idx\<in>footprint template_lg (2 * radius) c. \<not> item (rs_options_im s) idx))
      \<and> (\<forall>i j. i < j \<and> j < length (rs_centers s) \<longrightarrow>
             rs_centers s ! j \<notin> footprint template_lg (2 * radius) (rs_centers s ! i)))"

section \<open>Gravity settling: the choice of the next centre\<close>

text \<open>
  In every iteration \<open>pseudo_gravity_packing\<close> lists the sites of the current window,
  \<open>x\<close> holding their coordinates along the gravity axis (relative to \<open>x_min\<close>) and \<open>y\<close>
  those along the second axis, and stops when there is none. \<open>np.where(x == x.min())[0]\<close>
  gives the positions of the sites at the minimum coordinate.
\<close>

definition lowest_options :: "int list \<Rightarrow> nat list" where
  "lowest_options x = filter (\<lambda>k. x ! k = Min (set x)) [0..<length x]"

text \<open>
  \<open>np.random.randint(low, high)\<close> draws from \<open>low, ..., high - 1\<close>, each with the same
  probability, and raises ValueError when that range is empty. \<open>randint_outcomes\<close> lists
  the possible results; with the raw draw \<open>u\<close> the result is \<open>low + u mod (high - low)\<close>.
\<close>

definition randint_outcomes :: "int \<Rightarrow> int \<Rightarrow> int list" where
  "randint_outcomes low high = [low..high - 1]"

definition randint :: "int \<Rightarrow> int \<Rightarrow> nat \<Rightarrow> error + int" where
  "randint low high u =
     (if low \<ge> high then Inl ValueError else Inr (low + int u mod (high - low)))"

text \<open>
  The choice among the options: \<open>randint(0, len(options) - 1)\<close> when there is more than one,
  else \<open>0\<close>.
\<close>

definition choice_outcomes :: "nat list \<Rightarrow> int list" where
  "choice_outcomes options =
     (if length options > 1 then randint_outcomes 0 (int (length options) - 1) else [0])"

definition gravity_choice :: "nat list \<Rightarrow> nat \<Rightarrow> error + int" where
  "gravity_choice options u =
     (if length options > 1 then randint 0 (int (length options) - 1) u else Inr 0)"

text \<open>
  The centre of the next sphere in a 2-D image, \<open>[x[options[choice]] + x_min,
  y[options[choice]]]\<close>, for non-empty \<open>x\<close> and \<open>y\<close> of the same length.
\<close>

definition gravity_center_2d :: "int list \<Rightarrow> int list \<Rightarrow> int \<Rightarrow> nat \<Rightarrow> error + int list" where
  "gravity_center_2d x y x_min u =
     (let options = lowest_options x
      in case gravity_choice options u of
           Inl e \<Rightarrow> Inl e
         | Inr choice \<Rightarrow>
             Inr [x ! (options ! nat choice) + x_min, y ! (options ! nat choice)])"

section \<open>Polydisperse spheres: the representative radii\<close>

text \<open>
  \<open>np.linspace(start, stop, num)\<close>: \<open>num\<close> evenly spaced samples with both end points.
  Floating-point numbers are modelled by real numbers here and below.
\<close>

definition np_linspace :: "real \<Rightarrow> real \<Rightarrow> nat \<Rightarrow> real list" where
  "np_linspace start stop num =
     (if num = 1 then [start]
      else map (\<lambda>i. start + real i * ((stop - start) / real (num - 1))) [0..<num])"

text \<open>
  \<open>dist.interval(alpha)\<close> of a frozen SciPy distribution: the end points of the central
  interval that holds the fraction \<open>alpha\<close> of the distribution, \<open>ppf((1 - alpha) / 2)\<close> and
  \<open>ppf((1 + alpha) / 2)\<close>, where \<open>ppf\<close> is the inverse of the cumulative distribution
  function. The distribution is given by its \<open>ppf\<close>.
\<close>

definition interval :: "(real \<Rightarrow> real) \<Rightarrow> real \<Rightarrow> real \<times> real" where
  "interval ppf alpha = (ppf ((1 - alpha) / 2), ppf ((1 + alpha) / 2))"

text \<open>
  The radii of \<open>polydisperse_spheres\<close>. \<open>np.vstack(Rs).T\<close> has one row per level, the lower
  and the upper end point; \<open>(Rs[:-1] + Rs[1:]) / 2\<close> averages every row with the next one;
  \<open>flatten\<close> lists the rows one after the other; \<open>np.clip\<close> raises every entry to at least
  \<open>r_min\<close>.
\<close>

definition polydisperse_radii :: "(real \<Rightarrow> real) \<Rightarrow> nat \<Rightarrow> real \<Rightarrow> real list" where
  "polydisperse_radii ppf nbins r_min =
     (let Rs = map (interval ppf) (np_linspace 0.05 0.95 nbins);
          mid = map2 (\<lambda>a b. ((fst a + fst b) / 2, (snd a + snd b) / 2)) (butlast Rs) (tl Rs)
      in map (max r_min) (concat (map (\<lambda>p. [fst p, snd p]) mid)))"

text \<open>
  The generator itself. The image operations are parameters: \<open>spheres r phi\<close> is the random
  field of \<open>overlapping_spheres\<close> for radius \<open>r\<close> and porosity \<open>phi\<close>, \<open>mult\<close> the product of two
  boolean images, \<open>ones\<close> the image that is true everywhere and \<open>fraction\<close> the fraction of
  true voxels (taken as not zero). \<open>(1 - porosity) / len(Rs)\<close> divides a Python float and
  raises ZeroDivisionError when there is no radius. The result pairs the image with the
  radii that were used, in order.
\<close>

fun intersect_fields ::
  "(real \<Rightarrow> real \<Rightarrow> 'img) \<Rightarrow> ('img \<Rightarrow> 'img \<Rightarrow> 'img) \<Rightarrow> ('img \<Rightarrow> real) \<Rightarrow> real \<Rightarrow> real list \<Rightarrow> 'img \<Rightarrow> 'img" where
  "intersect_fields spheres mult fraction phi_desired [] im = im"
| "intersect_fields spheres mult fraction phi_desired (r # Rs) im =
     (let phi_im = fraction im;
          phi_corrected = 1 - (1 - phi_desired) / phi_im;
          temp = spheres r phi_corrected
      in intersect_fields spheres mult fraction phi_desired Rs (mult im temp))"

definition polydisperse_spheres ::
  "(real \<Rightarrow> real \<Rightarrow> 'img) \<Rightarrow> ('img \<Rightarrow> 'img \<Rightarrow> 'img) \<Rightarrow> ('img \<Rightarrow> real) \<Rightarrow> 'img
     \<Rightarrow> real \<Rightarrow> (real \<Rightarrow> real) \<Rightarrow> nat \<Rightarrow> real \<Rightarrow> error + ('img \<times> real list)" where
  "polydisperse_spheres spheres mult fraction ones porosity ppf nbins r_min =
     (let Rs = polydisperse_radii ppf nbins r_min
      in if length Rs = 0 then Inl ZeroDivisionError
         else
           let phi_desired = 1 - (1 - porosity) / real (length Rs)
           in Inr (intersect_fields spheres mult fraction phi_desired Rs ones, Rs))"

section \<open>Overlapping spheres: the bisection controller\<close>








section \<open>Noise field generator: \<open>perlin_noise\<close>\<close>








section \<open>Shape insertion: \<open>insert_shape\<close>\<close>

text \<open>
  The slices of the image and of the element along every axis, for an anchor at the centre.
  The arguments are the pairs (length of the image, length of the element) per axis and the
  coordinates of the centre; \<open>center[dim]\<close> raises IndexError when the centre has too few
  coordinates. A slice is the pair of its bounds.
\<close>

fun center_slices ::
  "(nat \<times> nat) list \<Rightarrow> int list \<Rightarrow> error + ((int \<times> int) list \<times> (int \<times> int) list)" where
  "center_slices [] center = Inr ([], [])"
| "center_slices ((n, L) # dims) center =
     (let r = int L div 2; d = int L mod 2
      in if d = 0
         then Inl (Exception ''Cannot specify center point when element has one or more even dimension'')
         else case center of
                [] \<Rightarrow> Inl IndexError
              | x # xs \<Rightarrow>
                  let lower_im = max (x - r) 0;
                      upper_im = min (x + r + 1) (int n);
                      lower_el = max (lower_im - x + r) 0;
                      upper_el = min (upper_im - x + r) (int L)
                  in case center_slices dims xs of
                       Inl e \<Rightarrow> Inl e
                     | Inr (s_im, s_el) \<Rightarrow>
                         Inr ((lower_im, upper_im) # s_im, (lower_el, upper_el) # s_el))"

text \<open>The same for an anchor at the lower corner.\<close>

fun corner_slices ::
  "(nat \<times> nat) list \<Rightarrow> int list \<Rightarrow> error + ((int \<times> int) list \<times> (int \<times> int) list)" where
  "corner_slices [] corner = Inr ([], [])"
| "corner_slices ((n, L) # dims) corner =
     (case corner of
        [] \<Rightarrow> Inl IndexError
      | x # xs \<Rightarrow>
          let lower_im = max x 0;
              upper_im = min (x + int L) (int n);
              lower_el = max (lower_im - x) 0;
              upper_el = min (upper_im - x) (int L)
          in case corner_slices dims xs of
               Inl e \<Rightarrow> Inl e
             | Inr (s_im, s_el) \<Rightarrow>
                 Inr ((lower_im, upper_im) # s_im, (min lower_el upper_el, upper_el) # s_el))"

text \<open>
  \<open>im[s_im] = el * v\<close>: the right-hand side must broadcast to the shape of the view, or
  NumPy raises ValueError.
\<close>

definition overwrite_assign :: "int ndarray \<Rightarrow> (int \<times> int) list \<Rightarrow> int ndarray \<Rightarrow> int \<Rightarrow> error + int ndarray" where
  "overwrite_assign im s_im el v =
     (if broadcastable (shape el) (view_shape (shape im) s_im)
      then Inr (update_view im s_im (\<lambda>j old. item el (broadcast_index (shape el) j) * v))
      else Inl ValueError)"

text \<open>
  \<open>im[s_im] = im[s_im] + el * v\<close>: the two operands must broadcast against each other,
  and their sum to the shape of the view.
\<close>

definition overlay_assign :: "int ndarray \<Rightarrow> (int \<times> int) list \<Rightarrow> int ndarray \<Rightarrow> int \<Rightarrow> error + int ndarray" where
  "overlay_assign im s_im el v =
     (let V = view_shape (shape im) s_im
      in case broadcast_shapes V (shape el) of
           None \<Rightarrow> Inl ValueError
         | Some S \<Rightarrow>
             if broadcastable S V
             then Inr (update_view im s_im
                        (\<lambda>j old. let k = broadcast_index S j
                                  in item (subarray im s_im) (broadcast_index V k)
                                     + item el (broadcast_index (shape el) k) * v))
             else Inl ValueError)"

text \<open>
  \<open>insert_shape(im, element, center, corner, value, mode)\<close> on integer arrays; the result
  is the copy with the element inserted.
\<close>

definition insert_shape ::
  "int ndarray \<Rightarrow> int ndarray \<Rightarrow> int list option \<Rightarrow> int list option \<Rightarrow> int \<Rightarrow> string
     \<Rightarrow> error + int ndarray" where
  "insert_shape im element center corner v mode =
     (if length (shape im) \<noteq> length (shape element)
      then Inl (Exception ''Image shape and element shape do not match'')
      else
        case (case (center, corner) of
                (Some c, None) \<Rightarrow> center_slices (zip (shape im) (shape element)) c
              | (None, Some c) \<Rightarrow> corner_slices (zip (shape im) (shape element)) c
              | _ \<Rightarrow> Inl (Exception ''Cannot specify both corner and center'')) of
          Inl e \<Rightarrow> Inl e
        | Inr (s_im, s_el) \<Rightarrow>
            if mode = ''overlay'' then overlay_assign im s_im (subarray element s_el) v
            else if mode = ''overwrite'' then overwrite_assign im s_im (subarray element s_el) v
            else Inl (Exception ''Invalid mode ''))"

text \<open>The elements of an array in row-major order, to display a result.\<close>

definition to_list :: "'a ndarray \<Rightarrow> 'a list" where
  "to_list a = map (item a) (all_indices (shape a))"

section \<open>Cylinders: the fractional refinement controller\<close>

subsection \<open>Floating-point values\<close>

text \<open>
  The controller divides by quantities that can be zero and takes the logarithm of a
  measured porosity that can be 0 or 1, so the infinities, not-a-number and the sign of
  zero decide what it does. A floating-point number is not-a-number, an infinity with its
  sign, or a sign and a magnitude; the magnitude is a non-negative real number, so that
  rounding is left out. The sign is \<open>True\<close> for a negative number.
\<close>

datatype npfloat = NaN | Infty bool | Flt bool real

definition of_real_f :: "real \<Rightarrow> npfloat" where
  "of_real_f x = Flt (x < 0) \<bar>x\<bar>"

definition fneg :: "npfloat \<Rightarrow> npfloat" where
  "fneg x = (case x of NaN \<Rightarrow> NaN | Infty s \<Rightarrow> Infty (\<not> s) | Flt s m \<Rightarrow> Flt (\<not> s) m)"

definition fmul :: "npfloat \<Rightarrow> npfloat \<Rightarrow> npfloat" where
  "fmul x y =
     (case (x, y) of
        (NaN, _) \<Rightarrow> NaN
      | (_, NaN) \<Rightarrow> NaN
      | (Infty s, Infty t) \<Rightarrow> Infty (s \<noteq> t)
      | (Infty s, Flt t m) \<Rightarrow> (if m = 0 then NaN else Infty (s \<noteq> t))
      | (Flt s m, Infty t) \<Rightarrow> (if m = 0 then NaN else Infty (s \<noteq> t))
      | (Flt s m, Flt t n) \<Rightarrow> Flt (s \<noteq> t) (m * n))"

definition fdiv :: "npfloat \<Rightarrow> npfloat \<Rightarrow> npfloat" where
  "fdiv x y =
     (case (x, y) of
        (NaN, _) \<Rightarrow> NaN
      | (_, NaN) \<Rightarrow> NaN
      | (Infty s, Infty t) \<Rightarrow> NaN
      | (Infty s, Flt t m) \<Rightarrow> Infty (s \<noteq> t)
      | (Flt s m, Infty t) \<Rightarrow> Flt (s \<noteq> t) 0
      | (Flt s m, Flt t n) \<Rightarrow>
          (if n = 0 then (if m = 0 then NaN else Infty (s \<noteq> t)) else Flt (s \<noteq> t) (m / n)))"

text \<open>
  \<open>np.log\<close>: minus infinity at both zeros, not-a-number below zero, and \<open>+0.0\<close> at 1.
\<close>

definition flog :: "npfloat \<Rightarrow> npfloat" where
  "flog x =
     (case x of
        NaN \<Rightarrow> NaN
      | Infty s \<Rightarrow> (if s then NaN else Infty False)
      | Flt s m \<Rightarrow>
          (if m = 0 then Infty True else if s then NaN else of_real_f (ln m)))"

text \<open>
  \<open>np.ceil\<close> keeps the sign (a number between -1 and 0 gives \<open>-0.0\<close>); subtracting a
  Python integer; and \<open>int(...)\<close>, which raises ValueError on not-a-number and
  OverflowError on an infinity and truncates otherwise.
\<close>

definition fceil :: "npfloat \<Rightarrow> npfloat" where
  "fceil x =
     (case x of
        NaN \<Rightarrow> NaN
      | Infty s \<Rightarrow> Infty s
      | Flt s m \<Rightarrow> (if s then Flt True (real_of_int \<lfloor>m\<rfloor>) else Flt False (real_of_int \<lceil>m\<rceil>)))"

definition fsub_int :: "npfloat \<Rightarrow> int \<Rightarrow> npfloat" where
  "fsub_int x n =
     (case x of
        NaN \<Rightarrow> NaN
      | Infty s \<Rightarrow> Infty s
      | Flt s m \<Rightarrow> of_real_f ((if s then - m else m) - real_of_int n))"

definition to_int :: "npfloat \<Rightarrow> error + int" where
  "to_int x =
     (case x of
        NaN \<Rightarrow> Inl ValueError
      | Infty s \<Rightarrow> Inl OverflowError
      | Flt s m \<Rightarrow> Inr (if s then - \<lfloor>m\<rfloor> else \<lfloor>m\<rfloor>))"

subsection \<open>The placement primitive \<open>_cylinders\<close>\<close>

text \<open>
  The rejection-sampling loop of \<open>_cylinders\<close> and the distance transform are the
  parameter \<open>place\<close>: \<open>place k shp radius ncylinders phi_max theta_max len\<close> is the image
  returned by the \<open>k\<close>-th call of the run, or \<open>None\<close> when the loop never finds enough valid
  segments. What is modelled of \<open>_cylinders\<close> is what it checks before the loop: a shape
  with one entry stands for a cube, a shape with two entries and angles outside
  \<open>[0, 90]\<close> are rejected. With a number of axes other than three the first pass of the
  loop multiplies the three random coordinates by \<open>shape + 2 * L\<close>, which NumPy cannot
  broadcast: ValueError.
\<close>

definition inner_cylinders ::
  "(nat \<Rightarrow> int list \<Rightarrow> real \<Rightarrow> int \<Rightarrow> real \<Rightarrow> real \<Rightarrow> real option \<Rightarrow> 'img option)
     \<Rightarrow> nat \<Rightarrow> int list \<Rightarrow> real \<Rightarrow> int \<Rightarrow> real \<Rightarrow> real \<Rightarrow> real option \<Rightarrow> (error + 'img) option" where
  "inner_cylinders place k shp radius ncylinders phi_max theta_max len =
     (if length shp = 2 then Some (Inl (Exception ''2D cylinders don't make sense''))
      else if phi_max > 90 \<or> phi_max < 0
      then Some (Inl (Exception ''phi_max must be betwen 0 and 90''))
      else if theta_max > 90 \<or> theta_max < 0
      then Some (Inl (Exception ''theta_max must be betwen 0 and 90''))
      else if length shp \<noteq> 1 \<and> length shp \<noteq> 3 \<and> 0 < ncylinders
      then Some (Inl ValueError)
      else map_option Inr
             (place k (if length shp = 1 then replicate 3 (hd shp) else shp)
                radius ncylinders phi_max theta_max len))"

subsection \<open>The controller \<open>cylinders\<close>\<close>

text \<open>
  \<open>get_num_pixels(porosity) = -np.log(porosity) * vol_total\<close>.
\<close>

definition get_num_pixels :: "real \<Rightarrow> npfloat \<Rightarrow> npfloat" where
  "get_num_pixels vol_total porosity = fmul (fneg (flog porosity)) (of_real_f vol_total)"

text \<open>
  The fraction of the estimated number of fibers to reach with every batch:
  \<open>subdif = 0.8 / np.sum(np.arange(1, max_iter) ** 2)\<close>, \<open>fractions = [0.2]\<close> and
  \<open>fractions.append(fractions[i - 1] + (max_iter - i) ** 2 * subdif)\<close> for
  \<open>i = 1, ..., max_iter - 1\<close>.
\<close>

definition fractions :: "nat \<Rightarrow> real list" where
  "fractions max_iter =
     (let subdif = 0.8 / (\<Sum>i\<leftarrow>[1..<max_iter]. (real i)\<^sup>2)
      in fold (\<lambda>i fr. fr @ [fr ! (i - 1) + (real (max_iter - i))\<^sup>2 * subdif]) [1..<max_iter] [0.2])"

text \<open>
  The loop over the fractions. Its variables are the image, \<open>vol_fiber\<close> and
  \<open>n_fibers_added\<close>; the list records \<open>n_fibers_added\<close> after every batch, which the
  source only prints at the end. \<open>img_and\<close> is \<open>&\<close> on images and \<open>porosity_of\<close> is
  \<open>ps.metrics.porosity\<close>; both are parameters. The result is \<open>None\<close> when a placement does
  not return.
\<close>

fun fiber_batches ::
  "(nat \<Rightarrow> int list \<Rightarrow> real \<Rightarrow> int \<Rightarrow> real \<Rightarrow> real \<Rightarrow> real option \<Rightarrow> 'img option)
     \<Rightarrow> ('img \<Rightarrow> 'img \<Rightarrow> 'img) \<Rightarrow> ('img \<Rightarrow> npfloat)
     \<Rightarrow> int list \<Rightarrow> real \<Rightarrow> real \<Rightarrow> real \<Rightarrow> real option \<Rightarrow> real \<Rightarrow> npfloat
     \<Rightarrow> real list \<Rightarrow> nat \<Rightarrow> 'img \<times> npfloat \<times> int \<times> int list
     \<Rightarrow> (error + ('img \<times> int list)) option" where
  "fiber_batches place img_and porosity_of shp radius phi_max theta_max len vol_total n_pixels_to_add
     [] k (im, vol_fiber, n_fibers_added, added) = Some (Inr (im, added))"
| "fiber_batches place img_and porosity_of shp radius phi_max theta_max len vol_total n_pixels_to_add
     (frac_k # fracs) k (im, vol_fiber, n_fibers_added, added) =
     (let n_fibers_total = fdiv n_pixels_to_add vol_fiber
      in case to_int (fsub_int (fceil (fmul (of_real_f frac_k) n_fibers_total)) n_fibers_added) of
           Inl e \<Rightarrow> Some (Inl e)
         | Inr n_fibers \<Rightarrow>
             (case (if n_fibers > 0
                    then map_option (map_sum id (img_and im))
                           (inner_cylinders place k shp radius n_fibers phi_max theta_max len)
                    else Some (Inr im)) of
                None \<Rightarrow> None
              | Some (Inl e) \<Rightarrow> Some (Inl e)
              | Some (Inr im') \<Rightarrow>
                  let n_fibers_added' = n_fibers_added + n_fibers;
                      porosity = porosity_of im';
                      vol_added = get_num_pixels vol_total porosity;
                      vol_fiber' = fdiv vol_added (of_real_f (real_of_int n_fibers_added'))
                  in fiber_batches place img_and porosity_of shp radius phi_max theta_max len
                       vol_total n_pixels_to_add fracs (k + 1)
                       (im', vol_fiber', n_fibers_added', added @ [n_fibers_added'])))"

text \<open>
  \<open>cylinders\<close>. The shape is a list of non-negative integers, \<open>ones\<close> is \<open>np.ones(shape)\<close>,
  and the cube root \<open>vol_total ** (1 / 3)\<close> is a real power. The result pairs the image
  with the record of \<open>n_fibers_added\<close>, which is empty when the number of cylinders is
  given.
\<close>

definition cylinders ::
  "(nat \<Rightarrow> int list \<Rightarrow> real \<Rightarrow> int \<Rightarrow> real \<Rightarrow> real \<Rightarrow> real option \<Rightarrow> 'img option)
     \<Rightarrow> ('img \<Rightarrow> 'img \<Rightarrow> 'img) \<Rightarrow> 'img \<Rightarrow> ('img \<Rightarrow> npfloat)
     \<Rightarrow> int list \<Rightarrow> real \<Rightarrow> int option \<Rightarrow> real option \<Rightarrow> real \<Rightarrow> real \<Rightarrow> real option \<Rightarrow> int
     \<Rightarrow> (error + ('img \<times> int list)) option" where
  "cylinders place img_and ones porosity_of shp radius ncylinders porosity phi_max theta_max len max_iter =
     (case ncylinders of
        Some n \<Rightarrow>
          map_option (map_sum id (\<lambda>im. (im, [])))
            (inner_cylinders place 0 shp radius n phi_max theta_max len)
      | None \<Rightarrow>
          (case porosity of
             None \<Rightarrow> Some (Inl (Exception '''ncylinders' and 'porosity' can't be both None''))
           | Some p \<Rightarrow>
               if max_iter < 3
               then Some (Inl (Exception ''Iterations must be greater than or equal to 3''))
               else
                 let vol_total = real_of_int (prod_list shp);
                     n_pixels_to_add = get_num_pixels vol_total (of_real_f p);
                     length_estimate = (case len of None \<Rightarrow> vol_total powr (1 / 3) | Some l \<Rightarrow> l);
                     vol_fiber = of_real_f (length_estimate * pi * radius * radius)
                 in fiber_batches place img_and porosity_of shp radius phi_max theta_max len
                      vol_total n_pixels_to_add (fractions (nat max_iter)) 0
                      (ones, vol_fiber, 0, [])))"

text \<open>
  The environment of a run on the shape \<open>[8, 1, 1]\<close> with \<open>phi_max = theta_max = 0\<close> and a
  length of 1000: an image is the list of its eight voxels, true for pore. Every segment
  is parallel to the first axis and has the half-length \<open>R = min(500, 2 H) = 16\<close> around a
  point whose first coordinate lies in the padded range \<open>[0, 24)\<close>, so a segment that
  meets the image at all covers its eight voxels: the image returned by \<open>_cylinders\<close> has
  no pore left as soon as one cylinder is asked for.
\<close>

definition row_place ::
  "nat \<Rightarrow> int list \<Rightarrow> real \<Rightarrow> int \<Rightarrow> real \<Rightarrow> real \<Rightarrow> real option \<Rightarrow> bool list option" where
  "row_place k shp radius ncylinders phi_max theta_max len =
     Some (replicate 8 (ncylinders \<le> 0))"

definition row_and :: "bool list \<Rightarrow> bool list \<Rightarrow> bool list" where
  "row_and a b = map2 (\<and>) a b"

definition row_porosity :: "bool list \<Rightarrow> npfloat" where
  "row_porosity im = of_real_f (real (length (filter id im)) / real (length im))"

section \<open>Tessellation edges: \<open>_get_Voronoi_edges\<close>\<close>

text \<open>
  \<open>vor.ridge_vertices\<close> is a list of facets, each a list of vertex indices in which
  \<open>-1\<close> stands for the vertex at infinity. The loop extends two flat lists, the facet
  itself and the facet rotated by one place; \<open>facet[-1]\<close> and \<open>facet[0]\<close> raise
  IndexError on an empty facet.
\<close>

fun extend_edges :: "int list list \<Rightarrow> int list \<times> int list \<Rightarrow> error + (int list \<times> int list)" where
  "extend_edges [] acc = Inr acc"
| "extend_edges (facet # rest) (e0, e1) =
     (if facet = [] then Inl IndexError
      else extend_edges rest (e0 @ (butlast facet @ [last facet]), e1 @ (tl facet @ [hd facet])))"

text \<open>\<open>np.any(edges == -1, axis=1)\<close>: the rows that touch the vertex at infinity.\<close>

definition touches_infinity :: "int \<times> int \<Rightarrow> bool" where
  "touches_infinity e = (fst e = -1 \<or> snd e = -1)"

text \<open>\<open>np.sort(edges, axis=1)\<close> on one row.\<close>

definition sort_row :: "int \<times> int \<Rightarrow> int \<times> int" where
  "sort_row e = (min (fst e) (snd e), max (fst e) (snd e))"

text \<open>
  \<open>np.unique\<close> of the rows coded as complex numbers \<open>a + b j\<close>: the sorted array (complex
  numbers are ordered by real part, then imaginary part) with equal neighbours dropped.
  The coding and decoding through \<open>complex128\<close> is exact for vertex indices below
  \<open>2^53\<close> and is left out.
\<close>

definition np_unique :: "(int \<times> int) list \<Rightarrow> (int \<times> int) list" where
  "np_unique es = remdups_adj (sort es)"

definition get_Voronoi_edges :: "int list list \<Rightarrow> error + (int \<times> int) list" where
  "get_Voronoi_edges ridge_vertices =
     (case extend_edges ridge_vertices ([], []) of
        Inl e \<Rightarrow> Inl e
      | Inr (e0, e1) \<Rightarrow>
          Inr (np_unique (map sort_row (filter (\<lambda>e. \<not> touches_infinity e) (zip e0 e1)))))"

section \<open>Properties of the site search and of random sequential addition\<close>

subsection \<open>The site search returns a valid site or the sentinel\<close>

lemma make_choice_2d_sound:
  assumes "make_choice_2d options_im free_sites rnd Nx Ny max_iters count k = Inr (coords, count', k')"
    and "count \<le> max_iters"
  shows "(coords = [-1, -1] \<and> count' = max_iters)
         \<or> (in_bounds [Nx, Ny] coords \<and> item options_im coords \<and> count < count' \<and> count' \<le> max_iters)"
  using assms
proof (induction options_im free_sites rnd Nx Ny max_iters count k rule: make_choice_2d.induct)
  case (1 options_im free_sites rnd Nx Ny max_iters count k)
  show ?case
  proof (cases "count \<ge> max_iters")
    case True
    with "1.prems" show ?thesis by (subst (asm) make_choice_2d.simps) simp
  next
    case False
    define fs where "fs = free_sites ! (rnd k mod length free_sites)"
    define c1 where "c1 = fs mod int Ny"
    define c0 where "c0 = (fs div int Ny) mod int Nx"
    from False "1.prems"(1) have pos: "0 < Nx" "0 < Ny"
      by (subst (asm) make_choice_2d.simps, simp add: Let_def split: if_splits)+
    then have rng: "in_bounds [Nx, Ny] [c0, c1]"
      by (simp add: in_bounds_def c0_def c1_def)
    show ?thesis
    proof (cases "item options_im [c0, c1]")
      case True
      from "1.prems"(1) False True pos have "coords = [c0, c1]" "count' = count + 1"
        by (subst (asm) make_choice_2d.simps, simp add: Let_def fs_def c0_def c1_def)+
      with True rng False show ?thesis by simp
    next
      case miss: False
      have r: "make_choice_2d options_im free_sites rnd Nx Ny max_iters (count + 1) (k + 1) = Inr (coords, count', k')"
        using "1.prems"(1) False miss pos
        by (subst (asm) make_choice_2d.simps) (simp add: Let_def fs_def c0_def c1_def)
      have "(coords = [-1, -1] \<and> count' = max_iters)
         \<or> (in_bounds [Nx, Ny] coords \<and> item options_im coords \<and> count + 1 < count' \<and> count' \<le> max_iters)"
        using False miss pos r
        by (intro "1.IH"[OF False refl _ refl refl]) (simp_all add: c0_def c1_def fs_def)
      then show ?thesis by auto
    qed
  qed
qed

lemma make_choice_2d_returns:
  assumes "0 < Nx" "0 < Ny"
  shows "\<exists>r. make_choice_2d options_im free_sites rnd Nx Ny max_iters count k = Inr r"
  using assms
proof (induction options_im free_sites rnd Nx Ny max_iters count k rule: make_choice_2d.induct)
  case (1 options_im free_sites rnd Nx Ny max_iters count k)
  show ?case
  proof (cases "count \<ge> max_iters")
    case True
    then show ?thesis by (subst make_choice_2d.simps) simp
  next
    case False
    define fs where "fs = free_sites ! (rnd k mod length free_sites)"
    define c1 where "c1 = fs mod int Ny"
    define c0 where "c0 = (fs div int Ny) mod int Nx"
    show ?thesis
    proof (cases "item options_im [c0, c1]")
      case True
      with False "1.prems" show ?thesis
        by (subst make_choice_2d.simps) (simp add: Let_def fs_def c0_def c1_def)
    next
      case miss: False
      have "\<exists>r. make_choice_2d options_im free_sites rnd Nx Ny max_iters (count + 1) (k + 1) = Inr r"
        using False miss "1.prems"
        by (intro "1.IH"[OF False refl _ refl refl]) (simp_all add: c0_def c1_def fs_def)
      then show ?thesis
        using False miss "1.prems"
        by (subst make_choice_2d.simps) (simp add: Let_def fs_def c0_def c1_def)
    qed
  qed
qed

lemma make_choice_3d_sound:
  assumes "make_choice_3d options_im free_sites rnd Nx Ny Nz max_iters count k = Inr (coords, count', k')"
    and "count \<le> max_iters"
  shows "(coords = [-1, -1, -1] \<and> count' = max_iters)
         \<or> (in_bounds [Nx, Ny, Nz] coords \<and> item options_im coords \<and> count < count' \<and> count' \<le> max_iters)"
  using assms
proof (induction options_im free_sites rnd Nx Ny Nz max_iters count k rule: make_choice_3d.induct)
  case (1 options_im free_sites rnd Nx Ny Nz max_iters count k)
  show ?case
  proof (cases "count \<ge> max_iters")
    case True
    with "1.prems" show ?thesis by (subst (asm) make_choice_3d.simps) simp
  next
    case False
    define fs where "fs = free_sites ! (rnd k mod length free_sites)"
    define c2 where "c2 = fs mod int Nz"
    define c1 where "c1 = (fs div int Nz) mod int Ny"
    define c0 where "c0 = (fs div (int Nz * int Ny)) mod int Nx"
    from False "1.prems"(1) have pos: "0 < Nx" "0 < Ny" "0 < Nz"
      by (subst (asm) make_choice_3d.simps, simp add: Let_def split: if_splits)+
    then have rng: "in_bounds [Nx, Ny, Nz] [c0, c1, c2]"
      by (simp add: in_bounds_def c0_def c1_def c2_def)
    show ?thesis
    proof (cases "item options_im [c0, c1, c2]")
      case True
      from "1.prems"(1) False True pos have "coords = [c0, c1, c2]" "count' = count + 1"
        by (subst (asm) make_choice_3d.simps, simp add: Let_def fs_def c0_def c1_def c2_def)+
      with True rng False show ?thesis by simp
    next
      case miss: False
      have r: "make_choice_3d options_im free_sites rnd Nx Ny Nz max_iters (count + 1) (k + 1) = Inr (coords, count', k')"
        using "1.prems"(1) False miss pos
        by (subst (asm) make_choice_3d.simps) (simp add: Let_def fs_def c0_def c1_def c2_def)
      have "(coords = [-1, -1, -1] \<and> count' = max_iters)
         \<or> (in_bounds [Nx, Ny, Nz] coords \<and> item options_im coords \<and> count + 1 < count' \<and> count' \<le> max_iters)"
        using False miss pos r
        by (intro "1.IH"[OF False refl _ refl refl refl]) (simp_all add: c0_def c1_def c2_def fs_def)
      then show ?thesis by auto
    qed
  qed
qed

lemma make_choice_3d_returns:
  assumes "0 < Nx" "0 < Ny" "0 < Nz"
  shows "\<exists>r. make_choice_3d options_im free_sites rnd Nx Ny Nz max_iters count k = Inr r"
  using assms
proof (induction options_im free_sites rnd Nx Ny Nz max_iters count k rule: make_choice_3d.induct)
  case (1 options_im free_sites rnd Nx Ny Nz max_iters count k)
  show ?case
  proof (cases "count \<ge> max_iters")
    case True
    then show ?thesis by (subst make_choice_3d.simps) simp
  next
    case False
    define fs where "fs = free_sites ! (rnd k mod length free_sites)"
    define c2 where "c2 = fs mod int Nz"
    define c1 where "c1 = (fs div int Nz) mod int Ny"
    define c0 where "c0 = (fs div (int Nz * int Ny)) mod int Nx"
    show ?thesis
    proof (cases "item options_im [c0, c1, c2]")
      case True
      with False "1.prems" show ?thesis
        by (subst make_choice_3d.simps) (simp add: Let_def fs_def c0_def c1_def c2_def)
    next
      case miss: False
      have "\<exists>r. make_choice_3d options_im free_sites rnd Nx Ny Nz max_iters (count + 1) (k + 1) = Inr r"
        using False miss "1.prems"
        by (intro "1.IH"[OF False refl _ refl refl refl]) (simp_all add: c0_def c1_def c2_def fs_def)
      then show ?thesis
        using False miss "1.prems"
        by (subst make_choice_3d.simps) (simp add: Let_def fs_def c0_def c1_def c2_def)
    qed
  qed
qed

lemma make_choice_sound:
  assumes "make_choice options_im free_sites rnd k = Inr (coords, count, k')"
  shows "(coords = replicate (length (shape options_im)) (-1) \<and> count = 20 * length free_sites)
         \<or> (in_bounds (shape options_im) coords \<and> item options_im coords
             \<and> 0 < count \<and> count \<le> 20 * length free_sites)"
proof -
  consider Nx Ny where "shape options_im = [Nx, Ny]"
    | Nx Ny Nz where "shape options_im = [Nx, Ny, Nz]"
    | "\<forall>Nx Ny. shape options_im \<noteq> [Nx, Ny]" "\<forall>Nx Ny Nz. shape options_im \<noteq> [Nx, Ny, Nz]"
    by blast
  then show ?thesis
  proof cases
    case 1
    with assms have "make_choice_2d options_im free_sites rnd Nx Ny (length free_sites * 20) 0 k = Inr (coords, count, k')"
      by (simp add: make_choice_def)
    from make_choice_2d_sound[OF this] 1 show ?thesis
      by (auto simp: numeral_2_eq_2 mult.commute)
  next
    case 2
    with assms have "make_choice_3d options_im free_sites rnd Nx Ny Nz (length free_sites * 20) 0 k = Inr (coords, count, k')"
      by (simp add: make_choice_def)
    from make_choice_3d_sound[OF this] 2 show ?thesis
      by (auto simp: numeral_3_eq_3 mult.commute)
  next
    case 3
    with assms show ?thesis
      by (simp add: make_choice_def Let_def split: list.splits)
  qed
qed

lemma make_choice_returns:
  assumes "length (shape options_im) = 2 \<or> length (shape options_im) = 3" "0 \<notin> set (shape options_im)"
  shows "\<exists>r. make_choice options_im free_sites rnd k = Inr r"
proof -
  from assms(1) consider Nx Ny where "shape options_im = [Nx, Ny]"
    | Nx Ny Nz where "shape options_im = [Nx, Ny, Nz]"
    by (auto simp: length_Suc_conv numeral_2_eq_2 numeral_3_eq_3)
  then show ?thesis
  proof cases
    case 1
    with assms(2) have "0 < Nx" "0 < Ny" by auto
    from make_choice_2d_returns[OF this] 1 show ?thesis by (simp add: make_choice_def)
  next
    case 2
    with assms(2) have "0 < Nx" "0 < Ny" "0 < Nz" by auto
    from make_choice_3d_returns[OF this] 2 show ?thesis by (simp add: make_choice_def)
  qed
qed

lemma sentinel_not_in_bounds:
  "in_bounds shp c \<Longrightarrow> c \<noteq> [] \<Longrightarrow> \<not> list_all (\<lambda>x. x = -1) c"
  by (cases c; cases shp) (auto simp: in_bounds_def)

lemma RSA_body_Continue_valid:
  assumes "RSA_body rnd radius vf_template template_sm template_lg s = Inr (Continue s')"
  shows "\<exists>c. rs_centers s' = rs_centers s @ [c] \<and> in_bounds (shape (rs_options_im s)) c
             \<and> item (rs_options_im s) c"
proof -
  from assms obtain c count k where
    mc: "make_choice (rs_options_im s) (rs_free_sites s) rnd (rs_draws s) = Inr (c, count, k)"
    and ns: "\<not> list_all (\<lambda>x. x = -1) c"
    and cs: "rs_centers s' = rs_centers s @ [c]"
    by (auto simp: RSA_body_def Let_def split: sum.splits prod.splits if_splits)
  from make_choice_sound[OF mc] ns have "in_bounds (shape (rs_options_im s)) c \<and> item (rs_options_im s) c"
    by (auto simp: list_all_iff)
  with cs show ?thesis by blast
qed

text \<open>
  Claim C10. For every 2-D or 3-D options mask without an empty axis and every free-site
  list, \<open>_make_choice\<close> returns, and what it returns is either the all-\<open>(-1)\<close> sentinel,
  with a count of exactly 20 times the length of the free-site list, or coordinates within
  the mask at which the mask is true, found in at most that many attempts. Hence whenever
  an iteration of the loop of \<open>RSA\<close> inserts a sphere, its centre is within the options
  mask and the mask was true there when it was chosen.
\<close>

theorem make_choice_valid:
  "((length (shape options_im) = 2 \<or> length (shape options_im) = 3) \<and> 0 \<notin> set (shape options_im) \<longrightarrow>
     (\<exists>coords count k'. make_choice options_im free_sites rnd k = Inr (coords, count, k')
        \<and> ((coords = replicate (length (shape options_im)) (-1) \<and> count = 20 * length free_sites)
           \<or> (in_bounds (shape options_im) coords \<and> item options_im coords
               \<and> 0 < count \<and> count \<le> 20 * length free_sites))))
   \<and> (RSA_body rnd radius vf_template template_sm template_lg s = Inr (Continue s') \<longrightarrow>
       (\<exists>c. rs_centers s' = rs_centers s @ [c] \<and> in_bounds (shape (rs_options_im s)) c
            \<and> item (rs_options_im s) c))"
proof (intro conjI impI)
  assume a: "(length (shape options_im) = 2 \<or> length (shape options_im) = 3) \<and> 0 \<notin> set (shape options_im)"
  then obtain r where "make_choice options_im free_sites rnd k = Inr r"
    using make_choice_returns by blast
  moreover obtain coords count k' where "r = (coords, count, k')"
    by (cases r) auto
  ultimately have mc: "make_choice options_im free_sites rnd k = Inr (coords, count, k')"
    by simp
  from make_choice_sound[OF mc] mc
  show "\<exists>coords count k'. make_choice options_im free_sites rnd k = Inr (coords, count, k')
        \<and> ((coords = replicate (length (shape options_im)) (-1) \<and> count = 20 * length free_sites)
           \<or> (in_bounds (shape options_im) coords \<and> item options_im coords
               \<and> 0 < count \<and> count \<le> 20 * length free_sites))"
    by blast
next
  assume "RSA_body rnd radius vf_template template_sm template_lg s = Inr (Continue s')"
  then show "\<exists>c. rs_centers s' = rs_centers s @ [c] \<and> in_bounds (shape (rs_options_im s)) c
            \<and> item (rs_options_im s) c"
    by (rule RSA_body_Continue_valid)
qed

theorem make_choice_valid_witness:
  "((length (shape \<lparr>shape = [2, 3], item = (\<lambda>idx. idx = [1, 1] \<or> idx = [0, 2])\<rparr>) = 2
      \<or> length (shape \<lparr>shape = [2, 3], item = (\<lambda>idx. idx = [1, 1] \<or> idx = [0, 2])\<rparr>) = 3)
    \<and> 0 \<notin> set (shape \<lparr>shape = [2, 3], item = (\<lambda>idx. idx = [1, 1] \<or> idx = [0, 2])\<rparr>))
   \<and> make_choice \<lparr>shape = [2, 3], item = (\<lambda>idx. idx = [1, 1] \<or> idx = [0, 2])\<rparr> [2, 4] (\<lambda>k. k) 0
       = Inr ([0, 2], 1, 1)
   \<and> make_choice \<lparr>shape = [2, 3], item = (\<lambda>idx. False)\<rparr> [2, 4] (\<lambda>k. k) 0
       = Inr ([-1, -1], 40, 40)
   \<and> (\<exists>coords count k'.
         make_choice \<lparr>shape = [2, 3], item = (\<lambda>idx. idx = [1, 1] \<or> idx = [0, 2])\<rparr> [2, 4] (\<lambda>k. k) 0
           = Inr (coords, count, k')
         \<and> ((coords = [-1, -1] \<and> count = 20 * length [2, 4 :: int])
            \<or> (in_bounds [2, 3] coords \<and> (coords = [1, 1] \<or> coords = [0, 2])
                \<and> 0 < count \<and> count \<le> 20 * length [2, 4 :: int])))
   \<and> (\<exists>s' c. RSA_body (\<lambda>k. k) 1 0 (ps_disk 1) (ps_disk 2)
               \<lparr>rs_im = \<lparr>shape = [5, 5], item = (\<lambda>idx. False)\<rparr>,
                rs_options_im = \<lparr>shape = [5, 5], item = (\<lambda>idx. idx = [2, 2])\<rparr>,
                rs_free_sites = [12], rs_vf = 0, rs_i = 0, rs_draws = 0, rs_centers = []\<rparr>
             = Inr (Continue s')
           \<and> rs_centers s' = [c] \<and> in_bounds [5, 5] c \<and> c = [2, 2])"
proof -
  let ?o = "\<lparr>shape = [2, 3], item = (\<lambda>idx. idx = [1, 1] \<or> idx = [0 :: int, 2])\<rparr>"
  let ?s = "\<lparr>rs_im = \<lparr>shape = [5, 5], item = (\<lambda>idx. False)\<rparr>,
                rs_options_im = \<lparr>shape = [5, 5], item = (\<lambda>idx. idx = [2 :: int, 2])\<rparr>,
                rs_free_sites = [12], rs_vf = 0, rs_i = 0, rs_draws = 0, rs_centers = []\<rparr>"
  have h: "(length (shape ?o) = 2 \<or> length (shape ?o) = 3) \<and> 0 \<notin> set (shape ?o)"
    by simp
  have v1: "make_choice ?o [2, 4] (\<lambda>k. k) 0 = Inr ([0, 2], 1, 1)"
    by code_simp
  have v2: "make_choice \<lparr>shape = [2, 3], item = (\<lambda>idx. False)\<rparr> [2, 4] (\<lambda>k. k) 0
       = Inr ([-1, -1], 40, 40)"
    by code_simp
  have "case RSA_body (\<lambda>k. k) 1 0 (ps_disk 1) (ps_disk 2) ?s of
          Inr (Continue s') \<Rightarrow> True | _ \<Rightarrow> False"
    by code_simp
  then obtain s' where c: "RSA_body (\<lambda>k. k) 1 0 (ps_disk 1) (ps_disk 2) ?s = Inr (Continue s')"
    by (auto split: sum.splits loop.splits)
  note t = make_choice_valid [of ?o "[2, 4]" "\<lambda>k. k" 0 1 0 "ps_disk 1" "ps_disk 2" ?s s']
  from t h have p1: "\<exists>coords count k'.
         make_choice ?o [2, 4] (\<lambda>k. k) 0 = Inr (coords, count, k')
         \<and> ((coords = [-1, -1] \<and> count = 20 * length [2, 4 :: int])
            \<or> (in_bounds [2, 3] coords \<and> (coords = [1, 1] \<or> coords = [0, 2])
                \<and> 0 < count \<and> count \<le> 20 * length [2, 4 :: int]))"
    by simp
  from t c have "\<exists>c. rs_centers s' = [c] \<and> in_bounds [5, 5] c \<and> c = [2, 2]"
    by simp
  with c have p2: "\<exists>s' c. RSA_body (\<lambda>k. k) 1 0 (ps_disk 1) (ps_disk 2) ?s = Inr (Continue s')
           \<and> rs_centers s' = [c] \<and> in_bounds [5, 5] c \<and> c = [2, 2]"
    by blast
  from h v1 v2 p1 p2 show ?thesis by blast
qed

subsection \<open>Clearing the exclusion template, and the geometry of the templates\<close>

lemma slice_exact:
  assumes "0 \<le> c" "c < int n" "slice_len n (c - int w, c + int w + 1) = 2 * w + 1"
  shows "slice_start n (c - int w, c + int w + 1) = c - int w"
  using assms
  by (auto simp: slice_len_def slice_start_def clip_bound_def split: if_splits)

lemma in_bounds_length: "in_bounds shp idx \<Longrightarrow> length idx = length shp"
  by (simp add: in_bounds_def list_all2_lengthD)

lemma in_bounds_nth: "in_bounds shp idx \<Longrightarrow> i < length shp \<Longrightarrow> 0 \<le> idx ! i \<and> idx ! i < int (shp ! i)"
  by (auto simp: in_bounds_def list_all2_conv_all_nth)

lemma view_starts_exact:
  assumes b: "in_bounds shp c"
    and v: "view_shape shp (map (\<lambda>x. (x - int w, x + int w + 1)) c) = replicate (length shp) (2 * w + 1)"
  shows "view_starts shp (map (\<lambda>x. (x - int w, x + int w + 1)) c) = map (\<lambda>x. x - int w) c"
proof (rule nth_equalityI)
  from b have len: "length c = length shp" by (rule in_bounds_length)
  then show "length (view_starts shp (map (\<lambda>x. (x - int w, x + int w + 1)) c)) = length (map (\<lambda>x. x - int w) c)"
    by (simp add: view_starts_def)
  fix i assume "i < length (view_starts shp (map (\<lambda>x. (x - int w, x + int w + 1)) c))"
  with len have i: "i < length shp" by (simp add: view_starts_def)
  from v have "view_shape shp (map (\<lambda>x. (x - int w, x + int w + 1)) c) ! i = replicate (length shp) (2 * w + 1) ! i"
    by simp
  with i len have "slice_len (shp ! i) (c ! i - int w, c ! i + int w + 1) = 2 * w + 1"
    by (simp add: view_shape_def)
  with in_bounds_nth[OF b i] have "slice_start (shp ! i) (c ! i - int w, c ! i + int w + 1) = c ! i - int w"
    by (intro slice_exact) auto
  with i len show "view_starts shp (map (\<lambda>x. (x - int w, x + int w + 1)) c) ! i = map (\<lambda>x. x - int w) c ! i"
    by (simp add: view_starts_def)
qed

lemma map2_shift:
  "length idx = length c \<Longrightarrow> map2 (-) idx (map (\<lambda>x. x - w) c) = map2 (\<lambda>x y. x - y + (w::int)) idx c"
  by (induction idx c rule: list_induct2) auto

lemma clear_mask_shape: "clear_mask a slices m = Inr a' \<Longrightarrow> shape a' = shape a"
  by (auto simp: clear_mask_def update_view_def split: if_splits)

lemma clear_mask_mono: "clear_mask a slices m = Inr a' \<Longrightarrow> item a' idx \<Longrightarrow> item a idx"
  by (auto simp: clear_mask_def update_view_def Let_def split: if_splits)

lemma clear_mask_footprint:
  assumes ok: "clear_mask a (map (\<lambda>x. (x - int w, x + int w + 1)) c) m = Inr a'"
    and b: "in_bounds (shape a) c"
    and m: "shape m = replicate (length (shape a)) (2 * w + 1)"
    and f: "idx \<in> footprint m w c"
  shows "\<not> item a' idx"
proof -
  let ?sl = "map (\<lambda>x. (x - int w, x + int w + 1)) c"
  from ok have vs: "view_shape (shape a) ?sl = shape m"
    by (auto simp: clear_mask_def split: if_splits)
  with m have st: "view_starts (shape a) ?sl = map (\<lambda>x. x - int w) c"
    by (intro view_starts_exact[OF b]) simp
  from b have len: "length c = length (shape a)" by (rule in_bounds_length)
  from f have l: "length idx = length c"
    and ib: "in_bounds (shape m) (map2 (\<lambda>x y. x - y + int w) idx c)"
    and it: "item m (map2 (\<lambda>x y. x - y + int w) idx c)"
    by (auto simp: footprint_def)
  from ok vs have "item a' idx = item (update_view a ?sl (\<lambda>j old. if item m j then False else old)) idx"
    by (auto simp: clear_mask_def)
  then show ?thesis
    using l len ib it vs st by (simp add: update_view_def Let_def map2_shift)
qed

lemma sq_term: "((a::int) - b)\<^sup>2 \<le> 2 * (v - a)\<^sup>2 + 2 * (v - b)\<^sup>2"
proof -
  have "2 * (v - a)\<^sup>2 + 2 * (v - b)\<^sup>2 - (a - b)\<^sup>2 = (2 * v - a - b)\<^sup>2"
    by (simp add: power2_eq_square algebra_simps)
  moreover have "0 \<le> (2 * v - a - b)\<^sup>2" by simp
  ultimately show ?thesis by linarith
qed

lemma sq_dist_triangle:
  "length v = length a \<Longrightarrow> length a = length b \<Longrightarrow>
   sq_dist a b \<le> 2 * sq_dist v a + 2 * sq_dist v b"
proof (induction v a b rule: list_induct3)
  case Nil
  then show ?case by (simp add: sq_dist_def)
next
  case (Cons x xs y ys z zs)
  from sq_term[of y z x] Cons.IH show ?case
    by (simp add: sq_dist_def)
qed

lemma sq_dist_shift:
  "(\<Sum>x\<leftarrow>map2 (\<lambda>x y. x - y + r) v c. (x - r)\<^sup>2) = sq_dist v (c :: int list)"
  by (simp add: sq_dist_def comp_def case_prod_beta)

lemma footprint_ps_round:
  "v \<in> footprint (ps_round n r) r c \<Longrightarrow> length v = length c \<and> sq_dist v c < (int r)\<^sup>2"
  using sq_dist_shift[of "int r" v c] by (auto simp: footprint_def ps_round_def)

lemma sq_dist_ge_coord:
  "length u = length v \<Longrightarrow> i < length u \<Longrightarrow> (u ! i - v ! i)\<^sup>2 \<le> sq_dist u (v :: int list)"
proof (induction u v arbitrary: i rule: list_induct2)
  case Nil
  then show ?case by simp
next
  case (Cons x xs y ys)
  have nn: "0 \<le> sq_dist xs ys" by (auto simp: sq_dist_def intro!: sum_list_nonneg)
  show ?case
  proof (cases i)
    case 0
    with nn show ?thesis by (simp add: sq_dist_def)
  next
    case (Suc k)
    with Cons have "(xs ! k - ys ! k)\<^sup>2 \<le> sq_dist xs ys" by simp
    moreover have "0 \<le> (x - y)\<^sup>2" by simp
    moreover have "sq_dist (x # xs) (y # ys) = (x - y)\<^sup>2 + sq_dist xs ys" by (simp add: sq_dist_def)
    ultimately show ?thesis using Suc by (simp add: add_increasing)
  qed
qed

lemma not_in_exclusion_far:
  assumes l: "length c' = length c" "length c = n"
    and nf: "c' \<notin> footprint (ps_round n (2 * r)) (2 * r) c"
  shows "(2 * int r)\<^sup>2 \<le> sq_dist c' c"
proof (rule ccontr)
  assume "\<not> (2 * int r)\<^sup>2 \<le> sq_dist c' c"
  then have lt: "sq_dist c' c < (2 * int r)\<^sup>2" by simp
  have "in_bounds (replicate n (2 * (2 * r) + 1)) (map2 (\<lambda>x y. x - y + int (2 * r)) c' c)"
    unfolding in_bounds_def
  proof (rule list_all2_all_nthI)
    show "length (replicate n (2 * (2 * r) + 1)) = length (map2 (\<lambda>x y. x - y + int (2 * r)) c' c)"
      using l by simp
    fix i assume "i < length (replicate n (2 * (2 * r) + 1))"
    with l have i: "i < length c'" by simp
    from sq_dist_ge_coord[OF l(1) i] lt have "(c' ! i - c ! i)\<^sup>2 < (2 * int r)\<^sup>2" by linarith
    then have "\<bar>c' ! i - c ! i\<bar> < 2 * int r"
      by (metis abs_ge_zero abs_of_nonneg mult_nonneg_nonneg of_nat_0_le_iff power2_abs power2_less_imp_less zero_le_numeral)
    with i l show "0 \<le> map2 (\<lambda>x y. x - y + int (2 * r)) c' c ! i \<and> map2 (\<lambda>x y. x - y + int (2 * r)) c' c ! i < int (replicate n (2 * (2 * r) + 1) ! i)"
      by (simp add: abs_less_iff)
  qed
  with lt l have "c' \<in> footprint (ps_round n (2 * r)) (2 * r) c"
    using sq_dist_shift[of "int (2 * r)" c' c] by (simp add: footprint_def ps_round_def)
  with nf show False by contradiction
qed

lemma far_disjoint:
  assumes "(2 * int r)\<^sup>2 \<le> sq_dist c c'" "length c = length c'"
  shows "footprint (ps_round n r) r c \<inter> footprint (ps_round n r) r c' = {}"
proof (rule ccontr)
  assume "footprint (ps_round n r) r c \<inter> footprint (ps_round n r) r c' \<noteq> {}"
  then obtain v where "v \<in> footprint (ps_round n r) r c" "v \<in> footprint (ps_round n r) r c'"
    by blast
  then have v: "length v = length c" "sq_dist v c < (int r)\<^sup>2" "sq_dist v c' < (int r)\<^sup>2"
    by (auto dest: footprint_ps_round)
  from sq_dist_triangle[OF v(1) assms(2)] v(2,3)
  have "sq_dist c c' < 4 * (int r)\<^sup>2" by linarith
  with assms(1) show False by (simp add: power2_eq_square)
qed

subsection \<open>The invariant of the insertion loop\<close>

lemma make_choice_ndim:
  "make_choice options_im free_sites rnd k = Inr r \<Longrightarrow>
   length (shape options_im) = 2 \<or> length (shape options_im) = 3"
  by (auto simp: make_choice_def Let_def split: list.splits)

lemma sq_dist_sym: "sq_dist u v = sq_dist v u"
proof -
  have "map (\<lambda>p. (fst p - snd p)\<^sup>2) (zip u v) = map (\<lambda>p. (fst p - snd p)\<^sup>2) (zip v u)"
    by (induction u arbitrary: v) (auto simp: zip_Cons1 power2_commute split: list.splits)
  then show ?thesis by (simp add: sq_dist_def)
qed

lemma RSA_body_inv:
  assumes body: "RSA_body rnd radius vf_template template_sm template_lg s = Inr r"
    and inv: "rsa_inv template_lg radius s"
    and shp: "shape template_lg = replicate (length (shape (rs_options_im s))) (2 * (2 * radius) + 1)"
    and r: "r = Break s' \<or> r = Continue s'"
  shows "rsa_inv template_lg radius s' \<and> shape (rs_options_im s') = shape (rs_options_im s)"
proof -
  from body obtain c count k where
    mc: "make_choice (rs_options_im s) (rs_free_sites s) rnd (rs_draws s) = Inr (c, count, k)"
    by (auto simp: RSA_body_def split: sum.splits)
  define s1 where "s1 = s\<lparr>rs_draws := k,
                     rs_free_sites := (if count > 100 then flatnonzero (rs_options_im s)
                                      else rs_free_sites s)\<rparr>"
  have s1: "rs_options_im s1 = rs_options_im s" "rs_centers s1 = rs_centers s"
    by (simp_all add: s1_def)
  show ?thesis
  proof (cases "list_all (\<lambda>x. x = -1) c")
    case True
    with body mc have "r = Break s1"
      by (simp add: RSA_body_def s1_def Let_def)
    with r have "s' = s1" by auto
    with inv s1 show ?thesis by (simp add: rsa_inv_def)
  next
    case False
    let ?sl = "map (\<lambda>x. (x - 2 * int radius, x + 2 * int radius + 1)) c"
    from body mc False obtain im' options' where
      cm: "clear_mask (rs_options_im s) ?sl template_lg = Inr options'"
      and rr: "r = Continue (s1\<lparr>rs_im := im', rs_options_im := options',
                                             rs_vf := rs_vf s1 + vf_template,
                                             rs_i := rs_i s1 + 1,
                                             rs_centers := rs_centers s1 @ [c]\<rparr>)"
      by (auto simp: RSA_body_def s1_def Let_def split: sum.splits)
    with r have s': "rs_options_im s' = options'" "rs_centers s' = rs_centers s @ [c]"
      by (auto simp: s1)
    from make_choice_sound[OF mc] False
    have cb: "in_bounds (shape (rs_options_im s)) c" and cv: "item (rs_options_im s) c"
      by (auto simp: list_all_iff)
    have sh: "shape options' = shape (rs_options_im s)"
      using cm by (rule clear_mask_shape)
    have cm': "clear_mask (rs_options_im s) (map (\<lambda>x. (x - int (2 * radius), x + int (2 * radius) + 1)) c) template_lg = Inr options'"
      using cm by simp
    have new: "\<forall>idx\<in>footprint template_lg (2 * radius) c. \<not> item options' idx"
      using clear_mask_footprint[OF cm' cb shp] by blast
    have old: "\<forall>c'\<in>set (rs_centers s). in_bounds (shape options') c'
          \<and> (\<forall>idx\<in>footprint template_lg (2 * radius) c'. \<not> item options' idx)"
      using inv sh clear_mask_mono[OF cm] by (auto simp: rsa_inv_def)
    have sep_new: "\<forall>c'\<in>set (rs_centers s). c \<notin> footprint template_lg (2 * radius) c'"
      using inv cv by (auto simp: rsa_inv_def)
    have pw: "\<forall>i j. i < j \<and> j < length (rs_centers s @ [c]) \<longrightarrow>
             (rs_centers s @ [c]) ! j \<notin> footprint template_lg (2 * radius) ((rs_centers s @ [c]) ! i)"
    proof (intro allI impI)
      fix i j assume ij: "i < j \<and> j < length (rs_centers s @ [c])"
      show "(rs_centers s @ [c]) ! j \<notin> footprint template_lg (2 * radius) ((rs_centers s @ [c]) ! i)"
      proof (cases "j < length (rs_centers s)")
        case True
        with ij inv show ?thesis by (simp add: rsa_inv_def nth_append)
      next
        case False
        with ij have j: "j = length (rs_centers s)" and i: "i < length (rs_centers s)" by auto
        from i have "rs_centers s ! i \<in> set (rs_centers s)" by simp
        with sep_new j i show ?thesis by (simp add: nth_append)
      qed
    qed
    from new old pw cb sh s' show ?thesis
      by (auto simp: rsa_inv_def)
  qed
qed

lemma RSA_loop_inv:
  assumes "RSA_loop rnd radius vf_final n_max vf_template template_sm template_lg s = Inr s'"
    and "rsa_inv template_lg radius s"
    and "shape template_lg = replicate (length (shape (rs_options_im s))) (2 * (2 * radius) + 1)"
  shows "rsa_inv template_lg radius s' \<and> shape (rs_options_im s') = shape (rs_options_im s)"
  using assms
proof (induction rnd radius vf_final n_max vf_template template_sm template_lg s
       rule: RSA_loop.induct)
  case (1 rnd radius vf_final n_max vf_template template_sm template_lg s)
  show ?case
  proof (cases "rs_vf s \<le> vf_final \<and> rs_i s < n_max \<and> length (rs_free_sites s) > 0")
    case False
    with "1.prems"(1) have "s' = s" by (subst (asm) RSA_loop.simps) (auto split: if_splits)
    with "1.prems"(2) show ?thesis by simp
  next
    case True
    from "1.prems"(1) True obtain r where
      body: "RSA_body rnd radius vf_template template_sm template_lg s = Inr r"
      by (subst (asm) RSA_loop.simps) (auto split: sum.splits)
    show ?thesis
    proof (cases r)
      case (Break s1)
      with "1.prems"(1) True body have "s' = s1"
        by (subst (asm) RSA_loop.simps) simp
      with RSA_body_inv[OF body "1.prems"(2,3), of s1] Break show ?thesis by simp
    next
      case (Continue s1)
      with "1.prems"(1) True body
      have loop: "RSA_loop rnd radius vf_final n_max vf_template template_sm template_lg s1 = Inr s'"
        by (subst (asm) RSA_loop.simps) simp
      from RSA_body_inv[OF body "1.prems"(2,3), of s1] Continue
      have "rsa_inv template_lg radius s1" "shape (rs_options_im s1) = shape (rs_options_im s)"
        by simp_all
      with "1.IH"[OF True body Continue loop] "1.prems"(3) show ?thesis by simp
    qed
  qed
qed

lemma RSA_loop_no_centers:
  assumes "RSA_loop rnd radius vf_final n_max vf_template template_sm template_lg s = Inr s'"
    and "length (shape (rs_options_im s)) \<noteq> 2" "length (shape (rs_options_im s)) \<noteq> 3"
  shows "rs_centers s' = rs_centers s"
proof -
  have "\<And>r. RSA_body rnd radius vf_template template_sm template_lg s \<noteq> Inr r"
    using assms(2,3) make_choice_ndim[of "rs_options_im s" "rs_free_sites s" rnd "rs_draws s"]
    by (auto simp: RSA_body_def split: sum.splits)
  with assms(1) show ?thesis
    by (subst (asm) RSA_loop.simps) (auto split: sum.splits if_splits)
qed

lemma RSA_centers_separated:
  assumes run: "RSA edt rnd im radius volume_fraction n_max mode = Inr (result, centers)"
    and ij: "i < j" "j < length centers"
  shows "length (centers ! i) = length (shape im) \<and> length (centers ! j) = length (shape im)
         \<and> (length (shape im) = 2 \<or> length (shape im) = 3)
         \<and> centers ! j \<notin> footprint (ps_round (length (shape im)) (2 * radius)) (2 * radius) (centers ! i)"
proof -
  define tlg where "tlg = (if length (shape im) = 2 then ps_disk (radius * 2) else ps_ball (radius * 2))"
  define tsm where "tsm = (if length (shape im) = 2 then ps_disk radius else ps_ball radius)"
  from run obtain padded where pad: "np_pad_edge im (2 * radius) = Inr padded"
    by (auto simp: RSA_def Let_def split: sum.splits)
  then have pshape: "length (shape padded) = length (shape im)"
    by (auto simp: np_pad_edge_def split: if_splits)
  from run pad obtain border s where
    loop: "RSA_loop rnd radius volume_fraction (case n_max of None \<Rightarrow> 10000 | Some n \<Rightarrow> n)
             (real (sum_of tsm) / real (size_of im)) tsm tlg
             (RSA_start edt padded border radius (real (sum_of im) / real (size_of im))) = Inr s"
    and cs: "centers = rs_centers s"
    by (auto simp: RSA_def Let_def tlg_def tsm_def split: sum.splits if_splits)
  define s0 where "s0 = RSA_start edt padded border radius (real (sum_of im) / real (size_of im))"
  have s0: "rs_centers s0 = []" "shape (rs_options_im s0) = shape padded"
    by (simp_all add: s0_def RSA_start_def Let_def)
  note loop = loop[folded s0_def]
  have inv0: "rsa_inv tlg radius s0"
    using s0 by (simp add: rsa_inv_def)
  show ?thesis
  proof (cases "length (shape im) = 2 \<or> length (shape im) = 3")
    case False
    with RSA_loop_no_centers[OF loop] s0 pshape cs ij show ?thesis by simp
  next
    case True
    then have t: "tlg = ps_round (length (shape im)) (2 * radius)"
      by (auto simp: tlg_def ps_disk_def ps_ball_def mult.commute)
    with s0 pshape have "shape tlg = replicate (length (shape (rs_options_im s0))) (2 * (2 * radius) + 1)"
      by (simp add: ps_round_def)
    from RSA_loop_inv[OF loop inv0 this]
    have inv: "rsa_inv tlg radius s" and shs: "shape (rs_options_im s) = shape (rs_options_im s0)"
      by simp_all
    have sh: "\<forall>c\<in>set centers. length c = length (shape im)"
    proof
      fix c assume "c \<in> set centers"
      with inv cs have "in_bounds (shape (rs_options_im s)) c" by (simp add: rsa_inv_def)
      then have "length c = length (shape (rs_options_im s))" by (rule in_bounds_length)
      then show "length c = length (shape im)" using s0 pshape shs by simp
    qed
    from ij have "centers ! i \<in> set centers" "centers ! j \<in> set centers" by simp_all
    with sh inv cs ij True t show ?thesis by (simp add: rsa_inv_def)
  qed
qed

text \<open>
  Claim C2, as amended. After any successful run of \<open>RSA\<close>, for every input image, radius,
  volume-fraction target and \<open>n_max\<close>, no two spheres placed by the run have a voxel in
  common, and any two chosen centres are at distance at least \<open>2r\<close> (the squared distance
  is at least \<open>(2r)\<^sup>2\<close>): a centre is chosen only where the options mask is true, and each
  insertion clears the mask on the template of radius \<open>2r\<close> around the centre. The
  templates hold the offsets at distance less than their radius, so a distance of exactly
  \<open>2r\<close> is possible.
\<close>

theorem RSA_no_overlap:
  assumes "RSA edt rnd im radius volume_fraction n_max mode = Inr (result, centers)"
    and "i < j" "j < length centers"
  shows "footprint (if length (shape im) = 2 then ps_disk radius else ps_ball radius) radius (centers ! i)
           \<inter> footprint (if length (shape im) = 2 then ps_disk radius else ps_ball radius) radius (centers ! j) = {}
         \<and> (2 * int radius)\<^sup>2 \<le> sq_dist (centers ! i) (centers ! j)"
proof -
  from RSA_centers_separated[OF assms]
  have l: "length (centers ! i) = length (shape im)" "length (centers ! j) = length (shape im)"
    and n: "length (shape im) = 2 \<or> length (shape im) = 3"
    and nf: "centers ! j \<notin> footprint (ps_round (length (shape im)) (2 * radius)) (2 * radius) (centers ! i)"
    by simp_all
  from l have "length (centers ! j) = length (centers ! i)" by simp
  from not_in_exclusion_far[OF this l(1) nf]
  have far: "(2 * int radius)\<^sup>2 \<le> sq_dist (centers ! i) (centers ! j)"
    by (simp add: sq_dist_sym)
  from n have "(if length (shape im) = 2 then ps_disk radius else ps_ball radius)
                 = ps_round (length (shape im)) radius"
    by (auto simp: ps_disk_def ps_ball_def)
  with far_disjoint[OF far, of "length (shape im)"] l far show ?thesis by simp
qed

theorem RSA_no_overlap_witness:
  "(case RSA (\<lambda>a idx. if item a idx then (if idx = [3, 3] then 2 else 1) else 0)
           (\<lambda>k. if k = 0 then 0 else 2)
           \<lparr>shape = [3, 3], item = (\<lambda>idx. False)\<rparr> 1 1 (Some 2) ''contained'' of
      Inl e \<Rightarrow> False
    | Inr (result, centers) \<Rightarrow> centers = [[2, 2], [2, 4]])
   \<and> (0::nat) < 1 \<and> (1::nat) < length [[2, 2], [2, 4 :: int]]
   \<and> footprint (ps_disk 1) 1 [2, 2] \<inter> footprint (ps_disk 1) 1 [2, 4] = {}
   \<and> (2 * int 1)\<^sup>2 \<le> sq_dist [2, 2] [2, 4]"
proof -
  let ?run = "RSA (\<lambda>a idx. if item a idx then (if idx = [3, 3] then 2 else 1) else 0)
           (\<lambda>k. if k = 0 then 0 else 2)
           \<lparr>shape = [3, 3], item = (\<lambda>idx. False)\<rparr> 1 1 (Some 2) ''contained''"
  have ev: "case ?run of Inl e \<Rightarrow> False | Inr (result, centers) \<Rightarrow> centers = [[2, 2], [2, 4]]"
    by code_simp
  then obtain result where run: "?run = Inr (result, [[2, 2], [2, 4]])"
    by (auto split: sum.splits prod.splits)
  have h: "(0::nat) < 1" "(1::nat) < length [[2, 2], [2, 4 :: int]]" by simp_all
  from RSA_no_overlap[OF run h] ev h show ?thesis by simp
qed

theorem RSA_distance_counterexample:
  "map_sum id snd
     (RSA (\<lambda>a idx. if item a idx then (if idx = [3, 3] then 2 else 1) else 0)
          (\<lambda>k. if k = 0 then 0 else 2)
          \<lparr>shape = [3, 3], item = (\<lambda>idx. False)\<rparr> 1 1 (Some 2) ''contained'')
     = Inr [[2, 2], [2, 4]]
   \<and> \<not> (2 * int 1)\<^sup>2 < sq_dist [2, 2] [2, 4]"
  by code_simp

section \<open>Properties of the tessellation edge extraction\<close>

lemma distinct_remdups_adj_sorted: "sorted xs \<Longrightarrow> distinct (remdups_adj xs)"
  by (induction xs rule: remdups_adj.induct) (auto)

lemma distinct_count_list_one: "distinct xs \<Longrightarrow> x \<in> set xs \<Longrightarrow> count_list xs x = 1"
  by (induction xs) auto

lemma extend_edges_Inr:
  "[] \<notin> set rv \<Longrightarrow> extend_edges rv (e0, e1) = Inr (e0 @ concat rv, e1 @ concat (map rotate1 rv))"
proof (induction rv arbitrary: e0 e1)
  case Nil
  then show ?case by simp
next
  case (Cons facet rest)
  then have ne: "facet \<noteq> []" by auto
  then have "butlast facet @ [last facet] = facet" "tl facet @ [hd facet] = rotate1 facet"
    by (simp_all add: rotate1_hd_tl)
  with Cons ne show ?case by simp
qed

lemma zip_concat_rotate:
  "zip (concat rv) (concat (map rotate1 rv)) = concat (map (\<lambda>f. zip f (rotate1 f)) rv)"
  by (induction rv) (simp_all)

lemma np_unique_distinct: "distinct (np_unique es)"
  by (simp add: np_unique_def distinct_remdups_adj_sorted)

lemma np_unique_set: "set (np_unique es) = set es"
  by (simp add: np_unique_def)

lemma sort_row_canonical: "fst (sort_row e) \<le> snd (sort_row e)"
  by (simp add: sort_row_def)

lemma sort_row_finite: "\<not> touches_infinity e \<Longrightarrow> \<not> touches_infinity (sort_row e)"
  by (auto simp: sort_row_def touches_infinity_def min_def max_def)

lemma unordered_inj:
  "fst e \<le> snd e \<Longrightarrow> fst e' \<le> snd e' \<Longrightarrow> {fst e, snd e} = {fst e', snd e'} \<Longrightarrow> e = (e' :: int \<times> int)"
  by (cases e; cases e') (auto simp: doubleton_eq_iff)

text \<open>
  Claim C9. For every Voronoi diagram (every list of non-empty ridges) \<open>_get_Voronoi_edges\<close>
  returns an edge array in which no unordered vertex pair occurs twice, every row has its
  smaller index first, no row contains the sentinel \<open>-1\<close> of the vertex at infinity, and
  every finite edge of every ridge (shared by several cells or not) occurs exactly once.
\<close>

theorem get_Voronoi_edges_unique:
  assumes "[] \<notin> set ridge_vertices"
  shows "\<exists>edges. get_Voronoi_edges ridge_vertices = Inr edges
      \<and> distinct (map (\<lambda>e. {fst e, snd e}) edges)
      \<and> (\<forall>e\<in>set edges. fst e \<le> snd e \<and> \<not> touches_infinity e)
      \<and> (\<forall>facet\<in>set ridge_vertices. \<forall>e\<in>set (zip facet (rotate1 facet)).
            \<not> touches_infinity e \<longrightarrow> count_list edges (sort_row e) = 1)"
proof -
  define raw where "raw = concat (map (\<lambda>f. zip f (rotate1 f)) ridge_vertices)"
  define edges where "edges = np_unique (map sort_row (filter (\<lambda>e. \<not> touches_infinity e) raw))"
  have run: "get_Voronoi_edges ridge_vertices = Inr edges"
    using extend_edges_Inr [OF assms, of "[]" "[]"]
    by (simp add: get_Voronoi_edges_def edges_def raw_def zip_concat_rotate)
  have mem: "set edges = sort_row ` {e \<in> set raw. \<not> touches_infinity e}"
    by (simp add: edges_def np_unique_set)
  have canon: "\<forall>e\<in>set edges. fst e \<le> snd e \<and> \<not> touches_infinity e"
    using mem sort_row_canonical sort_row_finite by auto
  have dist: "distinct edges"
    by (simp add: edges_def np_unique_distinct)
  have inj: "inj_on (\<lambda>e. {fst e, snd e}) (set edges)"
  proof (rule inj_onI)
    fix e e' assume "e \<in> set edges" "e' \<in> set edges" "{fst e, snd e} = {fst e', snd e'}"
    with canon show "e = e'" by (intro unordered_inj) auto
  qed
  have once: "\<forall>facet\<in>set ridge_vertices. \<forall>e\<in>set (zip facet (rotate1 facet)).
            \<not> touches_infinity e \<longrightarrow> count_list edges (sort_row e) = 1"
  proof (intro ballI impI)
    fix facet e
    assume "facet \<in> set ridge_vertices" "e \<in> set (zip facet (rotate1 facet))" "\<not> touches_infinity e"
    then have "e \<in> set raw" by (auto simp: raw_def)
    with \<open>\<not> touches_infinity e\<close> have "sort_row e \<in> set edges" by (simp add: mem)
    with dist show "count_list edges (sort_row e) = 1" by (rule distinct_count_list_one)
  qed
  from run dist inj canon once show ?thesis
    by (auto simp: distinct_map)
qed

theorem get_Voronoi_edges_unique_witness:
  "[] \<notin> set [[0, 1, 2], [2, 1, -1], [3, 0 :: int]]
   \<and> get_Voronoi_edges [[0, 1, 2], [2, 1, -1], [3, 0]] = Inr [(0, 1), (0, 2), (0, 3), (1, 2)]
   \<and> (\<exists>edges. get_Voronoi_edges [[0, 1, 2], [2, 1, -1], [3, 0]] = Inr edges
      \<and> distinct (map (\<lambda>e. {fst e, snd e}) edges)
      \<and> (\<forall>e\<in>set edges. fst e \<le> snd e \<and> \<not> touches_infinity e)
      \<and> (\<forall>facet\<in>set [[0, 1, 2], [2, 1, -1], [3, 0]]. \<forall>e\<in>set (zip facet (rotate1 facet)).
            \<not> touches_infinity e \<longrightarrow> count_list edges (sort_row e) = 1))"
proof -
  have h: "[] \<notin> set [[0, 1, 2], [2, 1, -1], [3, 0 :: int]]" by simp
  have v: "get_Voronoi_edges [[0, 1, 2], [2, 1, -1], [3, 0]] = Inr [(0, 1), (0, 2), (0, 3), (1, 2)]"
    by code_simp
  from h v get_Voronoi_edges_unique [OF h] show ?thesis by blast
qed

section \<open>Properties of the gravity packer's choice\<close>

lemma randint_outcomes_set: "set (randint_outcomes low high) = {low..<high}"
  by (auto simp: randint_outcomes_def)

lemma randint_in_outcomes:
  "low < high \<Longrightarrow> \<exists>c. randint low high u = Inr c \<and> c \<in> set (randint_outcomes low high)"
proof -
  assume "low < high"
  then have "0 \<le> int u mod (high - low)" "int u mod (high - low) < high - low"
    by simp_all
  with \<open>low < high\<close> show ?thesis
    by (simp add: randint_def randint_outcomes_def)
qed

text \<open>
  With more than one site at the minimum coordinate the possible choices are the positions
  \<open>0, ..., len(options) - 2\<close>: the last option is not among them, whatever the draw.
\<close>

lemma choice_outcomes_never_last:
  assumes "length options > 1"
  shows "set (choice_outcomes options) = {0..<int (length options) - 1}"
    and "int (length options) - 1 \<notin> set (choice_outcomes options)"
    and "\<exists>c. gravity_choice options u = Inr c \<and> 0 \<le> c \<and> c < int (length options) - 1"
proof -
  from assms show "set (choice_outcomes options) = {0..<int (length options) - 1}"
    by (auto simp: choice_outcomes_def randint_outcomes_def)
  then show "int (length options) - 1 \<notin> set (choice_outcomes options)"
    by simp
  from assms have "(0::int) < int (length options) - 1" by simp
  from randint_in_outcomes[OF this, of u] assms
  show "\<exists>c. gravity_choice options u = Inr c \<and> 0 \<le> c \<and> c < int (length options) - 1"
    by (auto simp: gravity_choice_def randint_outcomes_def)
qed

text \<open>
  Claim C6 at a failing input. Two sites lie at the minimum coordinate, \<open>x = [0, 0]\<close> with
  \<open>y = [3, 7]\<close> and \<open>x_min = 5\<close>. The claim makes both centres \<open>[5, 3]\<close> and \<open>[5, 7]\<close>
  selectable with equal probability; \<open>randint(0, 1)\<close> can only return \<open>0\<close>, so the centre is
  \<open>[5, 3]\<close> for every draw and the list of possible choices is \<open>[0]\<close>.
\<close>

theorem gravity_center_last_site_unreachable:
  "lowest_options [0, 0] = [0, 1]
   \<and> choice_outcomes (lowest_options [0, 0]) = [0]
   \<and> (\<forall>u. gravity_center_2d [0, 0] [3, 7] 5 u = Inr [5, 3])"
proof -
  have o: "lowest_options [0, 0] = [0, 1]"
    by (simp add: lowest_options_def upt_rec)
  have c: "choice_outcomes [0, 1] = [0]"
    by (simp add: choice_outcomes_def randint_outcomes_def upto.simps)
  have "gravity_center_2d [0, 0] [3, 7] 5 u = Inr [5, 3]" for u
    by (simp add: gravity_center_2d_def o gravity_choice_def randint_def)
  with o c show ?thesis by simp
qed

section \<open>Properties of the polydisperse radii\<close>

text \<open>
  The number of radii is \<open>2 (nbins - 1)\<close>: two for every pair of neighbouring levels.
\<close>

lemma polydisperse_radii_length:
  "length (polydisperse_radii ppf nbins r_min) = 2 * (nbins - 1)"
  by (auto simp: polydisperse_radii_def np_linspace_def Let_def length_concat comp_def sum_list_triv)

text \<open>
  Claim C8 at a failing input: the default \<open>nbins = 5\<close> and \<open>r_min = 5\<close> with the uniform
  distribution on \<open>[0, 100]\<close>, whose inverse cumulative distribution function is
  \<open>q \<mapsto> 100 q\<close>. The claim has the five radii \<open>5, 27.5, 50, 72.5, 95\<close>, the inverse CDF at
  the quantiles \<open>0.05, 0.275, 0.5, 0.725, 0.95\<close>. The code derives eight radii, none of
  them among those five: the midpoints of neighbouring lower and of neighbouring upper end
  points of the central intervals at these five levels.
\<close>

theorem polydisperse_radii_default_bins:
  "polydisperse_radii (\<lambda>q. 100 * q) 5 5
     = [335 / 8, 465 / 8, 245 / 8, 555 / 8, 155 / 8, 645 / 8, 65 / 8, 735 / 8]
   \<and> length (polydisperse_radii (\<lambda>q. 100 * q) 5 5) = 8
   \<and> map (\<lambda>q. max 5 (100 * q)) (np_linspace 0.05 0.95 5) = [5, 55 / 2, 50, 145 / 2, 95]"
  by code_simp

section \<open>Properties of the bisection controller\<close>









section \<open>Properties of the noise generator's validation\<close>











section \<open>Shape insertion outside the grid\<close>

text \<open>
  Claim C5 at failing inputs, on a grid of ten zeros and an element of three ones. The
  claim has every anchor that places the element entirely outside the grid return the grid
  unchanged. With the centre at 12 the element covers the positions 11 to 13, beyond the
  upper end: the slice of the grid is empty, but \<open>upper_el = -1\<close> makes the slice of the
  element \<open>element[0:-1]\<close>, two entries, and the assignment raises ValueError. With the
  centre at -3, or the corner at -5, the element ends before position 0: \<open>upper_im\<close> is
  negative, the slice of the grid counts from the end and is not empty while the slice of
  the element is, and the assignment raises ValueError. The corner anchor at 11, the same
  placement as the centre at 12, returns the grid unchanged, because only that path takes
  the minimum of \<open>lower_el\<close> and \<open>upper_el\<close>. A partial overlap is clipped as claimed.
  Results are shown as the error or the list of the elements of the returned grid.
\<close>

theorem insert_shape_outside_raises:
  "map_sum id to_list
     (insert_shape \<lparr>shape = [10], item = (\<lambda>idx. 0)\<rparr> \<lparr>shape = [3], item = (\<lambda>idx. 1)\<rparr>
        (Some [12]) None 1 ''overwrite'') = Inl ValueError
   \<and> map_sum id to_list
     (insert_shape \<lparr>shape = [10], item = (\<lambda>idx. 0)\<rparr> \<lparr>shape = [3], item = (\<lambda>idx. 1)\<rparr>
        (Some [12]) None 1 ''overlay'') = Inl ValueError
   \<and> map_sum id to_list
     (insert_shape \<lparr>shape = [10], item = (\<lambda>idx. 0)\<rparr> \<lparr>shape = [3], item = (\<lambda>idx. 1)\<rparr>
        (Some [-3]) None 1 ''overwrite'') = Inl ValueError
   \<and> map_sum id to_list
     (insert_shape \<lparr>shape = [10], item = (\<lambda>idx. 0)\<rparr> \<lparr>shape = [3], item = (\<lambda>idx. 1)\<rparr>
        None (Some [-5]) 1 ''overwrite'') = Inl ValueError
   \<and> map_sum id to_list
     (insert_shape \<lparr>shape = [10], item = (\<lambda>idx. 0)\<rparr> \<lparr>shape = [3], item = (\<lambda>idx. 1)\<rparr>
        None (Some [11]) 1 ''overwrite'') = Inr [0, 0, 0, 0, 0, 0, 0, 0, 0, 0]
   \<and> map_sum id to_list
     (insert_shape \<lparr>shape = [10], item = (\<lambda>idx. 0)\<rparr> \<lparr>shape = [3], item = (\<lambda>idx. 1)\<rparr>
        (Some [9]) None 1 ''overwrite'') = Inr [0, 0, 0, 0, 0, 0, 0, 0, 1, 1]"
  by code_simp

section \<open>Properties of the cylinders controller\<close>

subsection \<open>The batch loop ends\<close>

text \<open>
  There is one batch per fraction and \<open>max_iter\<close> fractions (one when \<open>max_iter\<close> is 0):
  a run that returns an image has recorded \<open>n_fibers_added\<close> once per fraction, and the
  loop returns, with an image or an error, whenever every call of the placement primitive
  does.
\<close>

lemma fold_append_length:
  "length (fold (\<lambda>i fr. fr @ [g i fr]) is acc) = length acc + length is"
  by (induction "is" arbitrary: acc) simp_all

lemma fractions_length: "length (fractions max_iter) = Suc (max_iter - 1)"
  by (simp add: fractions_def Let_def fold_append_length)

lemma fiber_batches_record:
  "fiber_batches place img_and porosity_of shp radius phi_max theta_max len vol_total n_pixels_to_add
     fracs k (im, vol_fiber, n_fibers_added, added) = Some (Inr (im', added'))
   \<Longrightarrow> length added' = length added + length fracs"
proof (induction fracs arbitrary: k im vol_fiber n_fibers_added added)
  case Nil
  then show ?case by simp
next
  case (Cons frac_k fracs)
  from Cons.prems show ?case
    by (auto simp: Let_def dest!: Cons.IH split: sum.splits option.splits if_splits)
qed

lemma inner_cylinders_returns:
  "(\<And>k shp r n p t l. place k shp r n p t l \<noteq> None)
   \<Longrightarrow> inner_cylinders place k shp radius n phi_max theta_max len \<noteq> None"
  by (simp add: inner_cylinders_def)

lemma fiber_batches_returns:
  assumes "\<And>k shp r n p t l. place k shp r n p t l \<noteq> None"
  shows "fiber_batches place img_and porosity_of shp radius phi_max theta_max len vol_total n_pixels_to_add
     fracs k (im, vol_fiber, n_fibers_added, added) \<noteq> None"
proof (induction fracs arbitrary: k im vol_fiber n_fibers_added added)
  case Nil
  then show ?case by simp
next
  case (Cons frac_k fracs)
  have ic: "inner_cylinders place k shp radius n phi_max theta_max len \<noteq> None" for n
    using assms by (rule inner_cylinders_returns)
  show ?case
    using Cons.IH by (auto simp: Let_def ic split: sum.splits option.splits)
qed

subsection \<open>A run on the shape \<open>[8, 1, 1]\<close>\<close>

text \<open>
  \<open>cylinders(shape=[8, 1, 1], radius=1, porosity=0.7, phi_max=0, theta_max=0, length=1000,
  max_iter=3)\<close>: the estimate of the volume of one fiber is \<open>1000 \<pi>\<close>, the number of voxels
  to fill is \<open>-ln 0.7 \<times> 8\<close>, and the first batch asks for one fiber.
\<close>

lemma ln_seven_tenths: "ln (7 / 10 :: real) < 0"
  by simp

lemma pixels_to_add: "get_num_pixels 8 (of_real_f (7 / 10)) = Flt False (- ln (7 / 10) * 8)"
  using ln_seven_tenths by (simp add: get_num_pixels_def flog_def of_real_f_def fneg_def fmul_def)

lemma fractions_3: "fractions 3 = [1 / 5, 21 / 25, 1]"
  by code_simp

lemma first_target: "\<lceil>1 / 5 * (- ln (7 / 10) * 8 / (1000 * pi))\<rceil> = (1 :: int)"
proof -
  define y :: real where "y = - ln (7 / 10) * 8 / (1000 * pi)"
  have p: "0 < - ln (7 / 10 :: real) * 8" using ln_seven_tenths by simp
  have d: "0 < 1000 * pi" using pi_gt_zero by simp
  have "ln (10 / 7 :: real) \<le> 10 / 7 - 1" by (rule ln_le_minus_one) simp
  moreover have "ln (10 / 7 :: real) = - ln (7 / 10)"
    using ln_div[of 10 "7 :: real"] ln_div[of 7 "10 :: real"] by simp
  ultimately have u: "- ln (7 / 10 :: real) \<le> 3 / 7" by simp
  have "- ln (7 / 10) * 8 \<le> 1000 * pi"
    using u pi_ge_two by linarith
  then have y1: "y \<le> 1"
    unfolding y_def by (simp only: divide_le_eq_1_pos[OF d])
  have y0: "0 < y"
    unfolding y_def using p d by (rule divide_pos_pos)
  have "\<lceil>1 / 5 * y\<rceil> = (1 :: int)"
  proof (rule ceiling_unique)
    from y0 show "real_of_int 1 - 1 < 1 / 5 * y" by simp
    from y1 show "1 / 5 * y \<le> real_of_int 1" by simp
  qed
  then show ?thesis by (simp only: y_def)
qed

lemma batch1:
  "to_int (fsub_int (fceil (fmul (of_real_f (1 / 5))
      (fdiv (Flt False (- (ln (7 / 10) * 8))) (of_real_f (1000 * pi))))) 0) = Inr 1"
proof -
  have "fdiv (Flt False (- ln (7 / 10) * 8)) (of_real_f (1000 * pi))
        = Flt False (- ln (7 / 10) * 8 / (1000 * pi))"
    using pi_gt_zero by (simp add: fdiv_def of_real_f_def)
  then have "fceil (fmul (of_real_f (1 / 5))
      (fdiv (Flt False (- ln (7 / 10) * 8)) (of_real_f (1000 * pi))))
      = Flt False (real_of_int \<lceil>1 / 5 * (- ln (7 / 10) * 8 / (1000 * pi))\<rceil>)"
    by (simp add: fmul_def of_real_f_def fceil_def)
  then have "to_int (fsub_int (fceil (fmul (of_real_f (1 / 5))
      (fdiv (Flt False (- ln (7 / 10) * 8)) (of_real_f (1000 * pi))))) 0) = Inr 1"
    by (simp only: first_target) (simp add: fsub_int_def of_real_f_def to_int_def)
  then show ?thesis by simp
qed

lemma all_solid: "row_porosity (replicate 8 False) = Flt False 0"
  by (simp add: row_porosity_def of_real_f_def)

lemma solid_volume: "get_num_pixels 8 (Flt False 0) = Infty False"
  by (simp add: get_num_pixels_def flog_def fneg_def fmul_def of_real_f_def)

lemma later_target:
  "0 \<le> f \<Longrightarrow> to_int (fsub_int (fceil (fmul (of_real_f f) (fdiv (Flt False m) (Infty False)))) n) = Inr (- n)"
  by (simp add: fdiv_def fmul_def of_real_f_def fceil_def fsub_int_def to_int_def)

lemma inf_div: "fdiv (Infty False) (of_real_f 0) = Infty False" "fdiv (Infty False) (of_real_f 1) = Infty False"
  by (simp_all add: fdiv_def of_real_f_def)

lemma batches_from_3:
  "fiber_batches row_place row_and row_porosity [8, 1, 1] 1 0 0 (Some 1000) 8 (Flt False m)
     [1] k (replicate 8 False, Infty False, 0, [1, 0]) = Some (Inr (replicate 8 False, [1, 0, 0]))"
  by (simp add: later_target all_solid solid_volume inf_div)

lemma batches_from_2:
  "fiber_batches row_place row_and row_porosity [8, 1, 1] 1 0 0 (Some 1000) 8 (Flt False m)
     [21 / 25, 1] k (replicate 8 False, Infty False, 1, [1]) = Some (Inr (replicate 8 False, [1, 0, 0]))"
  by (subst fiber_batches.simps)
     (simp add: later_target all_solid solid_volume inf_div batches_from_3 del: fiber_batches.simps)

lemma batches_from_1:
  "fiber_batches row_place row_and row_porosity [8, 1, 1] 1 0 0 (Some 1000) 8 (Flt False (- (ln (7 / 10) * 8)))
     [1 / 5, 21 / 25, 1] k (replicate 8 True, of_real_f (1000 * pi), 0, [])
   = Some (Inr (replicate 8 False, [1, 0, 0]))"
proof -
  have a: "row_and (replicate 8 True) (replicate 8 False) = replicate 8 False"
    by (simp add: row_and_def numeral_eq_Suc)
  show ?thesis
    by (subst fiber_batches.simps)
       (simp add: batch1 inner_cylinders_def row_place_def a inf_div all_solid solid_volume
          batches_from_2 del: fiber_batches.simps)
qed

text \<open>
  Claim C4 at a failing input. The first batch adds one fiber, which fills the image; the
  measured porosity 0 makes \<open>vol_added\<close> and \<open>vol_fiber\<close> infinite and the estimated total
  0, so the second batch computes \<open>n_fibers = -1\<close>: nothing is inserted, but
  \<open>n_fibers_added += n_fibers\<close> stands outside the test \<open>n_fibers > 0\<close> and takes the count
  from 1 to 0. The loop does run its three batches and returns; the record of
  \<open>n_fibers_added\<close> after the batches is \<open>[1, 0, 0]\<close>, which is not non-decreasing, and the
  final message reports 0 fibers for an image that one fiber has filled.
\<close>

theorem cylinders_count_decreases:
  "cylinders row_place row_and (replicate 8 True) row_porosity [8, 1, 1] 1 None (Some (7 / 10))
     0 0 (Some 1000) 3 = Some (Inr (replicate 8 False, [1, 0, 0]))
   \<and> \<not> sorted [1, 0, 0 :: int]"
  by (simp add: cylinders_def Let_def pixels_to_add fractions_3 batches_from_1 del: fiber_batches.simps)

subsection \<open>The selection of the mode\<close>

text \<open>
  Claim C1, as amended. A call of \<open>cylinders\<close> without \<open>ncylinders\<close> fails with an
  InvalidArgument error if \<open>porosity\<close> is not supplied either, or if \<open>max_iter < 3\<close>. A call
  with \<open>ncylinders\<close> runs with the fixed count whatever \<open>porosity\<close> and \<open>max_iter\<close> are: it
  gives what the same call without a porosity and with \<open>max_iter = 3\<close> gives, and for a 3-D
  shape and angles within \<open>[0, 90]\<close> it returns the image of the placement primitive.
\<close>

theorem cylinders_mode_selection:
  "(ncylinders = None \<and> porosity = None \<longrightarrow>
      cylinders place img_and ones porosity_of shp radius ncylinders porosity phi_max theta_max len max_iter
        = Some (Inl (Exception '''ncylinders' and 'porosity' can't be both None'')))
   \<and> (ncylinders = None \<and> porosity \<noteq> None \<and> max_iter < 3 \<longrightarrow>
      cylinders place img_and ones porosity_of shp radius ncylinders porosity phi_max theta_max len max_iter
        = Some (Inl (Exception ''Iterations must be greater than or equal to 3'')))
   \<and> (ncylinders \<noteq> None \<longrightarrow>
      cylinders place img_and ones porosity_of shp radius ncylinders porosity phi_max theta_max len max_iter
        = cylinders place img_and ones porosity_of shp radius ncylinders None phi_max theta_max len 3)
   \<and> (\<forall>n im. ncylinders = Some n \<and> length shp = 3 \<and> 0 \<le> phi_max \<and> phi_max \<le> 90
         \<and> 0 \<le> theta_max \<and> theta_max \<le> 90
         \<and> place 0 shp radius n phi_max theta_max len = Some im \<longrightarrow>
      cylinders place img_and ones porosity_of shp radius ncylinders porosity phi_max theta_max len max_iter
        = Some (Inr (im, [])))"
  by (auto simp: cylinders_def inner_cylinders_def)

theorem cylinders_mode_selection_witness:
  "cylinders row_place row_and (replicate 8 True) row_porosity [8, 1, 1] 1 None None 0 0 (Some 1000) 3
     = Some (Inl (Exception '''ncylinders' and 'porosity' can't be both None''))
   \<and> cylinders row_place row_and (replicate 8 True) row_porosity [8, 1, 1] 1 None (Some (7 / 10)) 0 0 (Some 1000) 2
     = Some (Inl (Exception ''Iterations must be greater than or equal to 3''))
   \<and> cylinders row_place row_and (replicate 8 True) row_porosity [8, 1, 1] 1 (Some 5) (Some (7 / 10)) 0 0 (Some 1000) 2
     = cylinders row_place row_and (replicate 8 True) row_porosity [8, 1, 1] 1 (Some 5) None 0 0 (Some 1000) 3
   \<and> cylinders row_place row_and (replicate 8 True) row_porosity [8, 1, 1] 1 (Some 5) (Some (7 / 10)) 0 0 (Some 1000) 2
     = Some (Inr (replicate 8 False, []))"
proof -
  have p: "row_place 0 [8, 1, 1] 1 5 0 0 (Some 1000) = Some (replicate 8 False)"
    by (simp add: row_place_def)
  note a = cylinders_mode_selection[where ncylinders = None and porosity = None
             and place = row_place and img_and = row_and and ones = "replicate 8 True"
             and porosity_of = row_porosity and shp = "[8, 1, 1]" and radius = 1
             and phi_max = 0 and theta_max = 0 and len = "Some 1000" and max_iter = 3]
  note b = cylinders_mode_selection[where ncylinders = None and porosity = "Some (7 / 10)"
             and place = row_place and img_and = row_and and ones = "replicate 8 True"
             and porosity_of = row_porosity and shp = "[8, 1, 1]" and radius = 1
             and phi_max = 0 and theta_max = 0 and len = "Some 1000" and max_iter = 2]
  note c = cylinders_mode_selection[where ncylinders = "Some 5" and porosity = "Some (7 / 10)"
             and place = row_place and img_and = row_and and ones = "replicate 8 True"
             and porosity_of = row_porosity and shp = "[8, 1, 1]" and radius = 1
             and phi_max = 0 and theta_max = 0 and len = "Some 1000" and max_iter = 2]
  from a have 1: "cylinders row_place row_and (replicate 8 True) row_porosity [8, 1, 1] 1 None None 0 0 (Some 1000) 3
     = Some (Inl (Exception '''ncylinders' and 'porosity' can't be both None''))"
    by simp
  from b have 2: "cylinders row_place row_and (replicate 8 True) row_porosity [8, 1, 1] 1 None (Some (7 / 10)) 0 0 (Some 1000) 2
     = Some (Inl (Exception ''Iterations must be greater than or equal to 3''))"
    by simp
  from c[THEN conjunct2, THEN conjunct2, THEN conjunct1]
  have 3: "cylinders row_place row_and (replicate 8 True) row_porosity [8, 1, 1] 1 (Some 5) (Some (7 / 10)) 0 0 (Some 1000) 2
     = cylinders row_place row_and (replicate 8 True) row_porosity [8, 1, 1] 1 (Some 5) None 0 0 (Some 1000) 3"
    by simp
  from c[THEN conjunct2, THEN conjunct2, THEN conjunct2] p
  have 4: "cylinders row_place row_and (replicate 8 True) row_porosity [8, 1, 1] 1 (Some 5) (Some (7 / 10)) 0 0 (Some 1000) 2
     = Some (Inr (replicate 8 False, []))"
    by simp
  from 1 2 3 4 show ?thesis by blast
qed

text \<open>
  The claim as stated fails for a call that supplies both \<open>ncylinders = 5\<close> and
  \<open>porosity = 0.7\<close>, with \<open>max_iter = 2\<close>: it returns the image of the five cylinders.
\<close>

theorem cylinders_both_supplied_counterexample:
  "cylinders row_place row_and (replicate 8 True) row_porosity [8, 1, 1] 1 (Some 5) (Some (7 / 10))
     0 0 (Some 1000) 2 = Some (Inr (replicate 8 False, []))"
  by (simp add: cylinders_def inner_cylinders_def row_place_def)

end
